theory Spec2Isabelle
  imports Complex_Main "HOL-Library.Char_ord" "HOL-Library.List_Lexorder" "HOL-Library.Multiset"
begin

section \<open>Tennis hit-frame and landing-spot pipeline (TeCCNis\_Code.py)\<close>

text \<open>
  A shallow embedding of the data-preparation and inference logic of
  \<^verbatim>\<open>src/2_TeCNNis_Paper/TeCCNis_Code.py\<close>.  Coordinates, weights and scores are
  modelled by \<^typ>\<open>real\<close> (no rounding, no NaN: a missing or NaN cell of a table is
  \<open>None\<close>).  Where a float is truncated to an int, in the balancing, it is a binary64
  value and its arithmetic rounds as IEEE 754 does.  Python ints are \<^typ>\<open>int\<close>,
  strings are \<^typ>\<open>string\<close>.
\<close>

subsection \<open>Coordinate mapping\<close>

text \<open>\<^verbatim>\<open>np.clip(a, lo, hi)\<close> is \<^verbatim>\<open>minimum(maximum(a, lo), hi)\<close>.\<close>

definition np_clip :: "'a::linorder \<Rightarrow> 'a \<Rightarrow> 'a \<Rightarrow> 'a" where
  "np_clip a lo hi = min (max a lo) hi"

text \<open>
  \<^verbatim>\<open>map_coordinates\<close> (lines 216-229).  A distance is \<open>None\<close> when
  \<^verbatim>\<open>pd.isna\<close> holds of it, and so is the shot type.  The result is the pair the source
  returns: \<open>(None, None)\<close> or two clipped numbers.
\<close>

definition map_coordinates ::
  "real option \<Rightarrow> real option \<Rightarrow> string option \<Rightarrow> real \<Rightarrow> real \<Rightarrow> real option \<times> real option" where
  "map_coordinates dist_sideline dist_baseline shot_type court_width court_length =
     (case (dist_sideline, dist_baseline, shot_type) of
        (Some ds, Some db, Some st) \<Rightarrow>
          if st \<notin> set [''Straight'', ''Cross''] \<or> court_width \<le> 0 \<or> court_length \<le> 0
          then (None, None)
          else
            let y_norm = db / court_length;
                x_norm = (if st = ''Straight'' then (court_width - ds) / court_width
                          else ds / court_width)
            in (Some (np_clip x_norm 0 1), Some (np_clip y_norm 0 1))
      | _ \<Rightarrow> (None, None))"

text \<open>
  \<^verbatim>\<open>denormalize_coordinates\<close> (lines 1129-1136): the inputs are clipped first, then the
  court dimensions are checked.
\<close>

definition denormalize_coordinates ::
  "real \<Rightarrow> real \<Rightarrow> real \<Rightarrow> real \<Rightarrow> real option \<times> real option \<times> real option" where
  "denormalize_coordinates norm_x norm_y court_width court_length =
     (let nx = np_clip norm_x 0 1; ny = np_clip norm_y 0 1
      in if court_width \<le> 0 \<or> court_length \<le> 0 then (None, None, None)
         else
           let dist_from_left_m = nx * court_width;
               dist_from_right_m = court_width - dist_from_left_m;
               dist_from_baseline_m = ny * court_length
           in (Some dist_from_left_m, Some dist_from_right_m, Some dist_from_baseline_m))"

text \<open>The three components of the result of \<^const>\<open>denormalize_coordinates\<close>.\<close>

definition dist_left :: "real option \<times> real option \<times> real option \<Rightarrow> real option" where
  "dist_left t = fst t"

definition dist_right :: "real option \<times> real option \<times> real option \<Rightarrow> real option" where
  "dist_right t = fst (snd t)"

definition dist_baseline_of :: "real option \<times> real option \<times> real option \<Rightarrow> real option" where
  "dist_baseline_of t = snd (snd t)"

subsection \<open>Paths and frame numbers\<close>

text \<open>
  \<^verbatim>\<open>os.path.basename\<close> and \<^verbatim>\<open>os.path.dirname\<close> on POSIX paths.  The basename is
  the part after the last slash.  The dirname is the part up to the last slash, without
  its trailing slashes unless it consists of slashes only.
\<close>

definition basename :: "string \<Rightarrow> string" where
  "basename p = rev (takeWhile (\<lambda>c. c \<noteq> CHR ''/'') (rev p))"

definition dirname :: "string \<Rightarrow> string" where
  "dirname p =
     (let head = rev (dropWhile (\<lambda>c. c \<noteq> CHR ''/'') (rev p))
      in if dropWhile (\<lambda>c. c = CHR ''/'') head \<noteq> []
         then rev (dropWhile (\<lambda>c. c = CHR ''/'') (rev head))
         else head)"

definition is_digit :: "char \<Rightarrow> bool" where
  "is_digit c = (c \<in> set ''0123456789'')"

text \<open>\<^verbatim>\<open>int(s)\<close> on a non-empty run of decimal digits.\<close>

definition int_of_digits :: "string \<Rightarrow> int" where
  "int_of_digits ds = foldl (\<lambda>a c. 10 * a + (of_char c - 48)) 0 ds"

text \<open>
  \<^verbatim>\<open>re.search(r'frame_(\d+)', s)\<close> followed by \<^verbatim>\<open>int(match.group(1))\<close>: the leftmost
  occurrence of \<^verbatim>\<open>frame_\<close> that is followed by a digit, with the longest run of digits
  after it; \<open>None\<close> when there is no match.
\<close>

fun search_frame_num :: "string \<Rightarrow> int option" where
  "search_frame_num [] = None"
| "search_frame_num (c # cs) =
     (let ds = takeWhile is_digit (drop 6 (c # cs))
      in if take 6 (c # cs) = ''frame_'' \<and> ds \<noteq> [] then Some (int_of_digits ds)
         else search_frame_num cs)"

subsection \<open>Linear weight assignment\<close>

text \<open>
  A row of the metadata table \<^verbatim>\<open>df_meta\<close> with the \<^verbatim>\<open>weight\<close> column that line 367
  adds before the groups are formed.  The table has the default index of
  \<^verbatim>\<open>pd.read_csv\<close>, so within a group every index label is unique and stands for one
  position: a row is identified by its position in the group, and
  \<^verbatim>\<open>group.index.get_loc\<close> of a row's label is that position.
\<close>

record frame_row =
  frame_path :: string
  video_id :: string
  is_hit_frame :: int
  weight :: real

text \<open>A row as lines 180-184 and 367 build it from a path and its hit flag.\<close>

definition meta_row :: "string \<Rightarrow> int \<Rightarrow> frame_row" where
  "meta_row p h = \<lparr>frame_path = p, video_id = dirname p, is_hit_frame = h, weight = 0\<rparr>"

text \<open>\<^verbatim>\<open>hit_frames = group[group['is_hit_frame'] == 1]\<close>, as positions in the group.\<close>

definition hit_frames :: "frame_row list \<Rightarrow> nat list" where
  "hit_frames grp = filter (\<lambda>i. is_hit_frame (grp ! i) = 1) [0..<length grp]"

text \<open>Lines 333-335: the row \<^verbatim>\<open>hit_frames.iloc[len(hit_frames) // 2]\<close>.\<close>

definition middle_hit :: "frame_row list \<Rightarrow> nat" where
  "middle_hit grp = hit_frames grp ! (length (hit_frames grp) div 2)"

text \<open>
  Lines 337-343 and 348-353: the frame number parsed from the basename, or the position of
  the row in the group when the pattern does not match.
\<close>

definition frame_num :: "frame_row list \<Rightarrow> nat \<Rightarrow> int" where
  "frame_num grp i =
     (case search_frame_num (basename (frame_path (grp ! i))) of
        Some n \<Rightarrow> n
      | None \<Rightarrow> int i)"

text \<open>\<^verbatim>\<open>assign_linear_weights\<close> (lines 326-362); the result is the group with its new weights.\<close>

definition assign_linear_weights :: "frame_row list \<Rightarrow> int \<Rightarrow> real \<Rightarrow> frame_row list" where
  "assign_linear_weights grp total_frames_window decay_rate =
     (if hit_frames grp = [] then map (\<lambda>row. row\<lparr>weight := 0\<rparr>) grp
      else
        let middle_hit_frame_index_in_group = middle_hit grp;
            middle_frame_num = frame_num grp middle_hit_frame_index_in_group;
            window_half = total_frames_window div 2
        in map (\<lambda>idx.
                  let current_frame_num = frame_num grp idx;
                      distance = \<bar>current_frame_num - middle_frame_num\<bar>
                  in (grp ! idx)\<lparr>weight :=
                       (if idx = middle_hit_frame_index_in_group then 1
                        else if distance \<le> window_half
                          then max 0 (1 - real_of_int distance * decay_rate)
                        else 0)\<rparr>)
               [0..<length grp])"

text \<open>The number of rows whose weight is exactly 1.\<close>

definition count_full_weight :: "frame_row list \<Rightarrow> nat" where
  "count_full_weight rows = length (filter (\<lambda>row. weight row = 1) rows)"

subsection \<open>Python numbers\<close>

datatype py_error = IndexError | OverflowError | ValueError

text \<open>
  A Python float is a binary64 value: \<open>Finite m e\<close> stands for \<open>m * 2 ^ e\<close>, and
  \<open>Infinity s\<close> for the infinity with sign bit \<open>s\<close>.  A Python number is an int or a
  float.
\<close>

datatype binary64 = Finite int int | Infinity bool | NaN

datatype py_number = PyInt int | PyFloat binary64

text \<open>\<^verbatim>\<open>int.bit_length\<close> of a non-negative int.\<close>

function bit_length :: "int \<Rightarrow> int" where
  "bit_length n = (if n \<le> 0 then 0 else 1 + bit_length (n div 2))"
  by pat_completeness auto
termination
  by (relation "measure nat") auto

declare bit_length.simps [simp del]

text \<open>
  The quotient of a non-negative \<open>m\<close> by \<open>2 ^ k\<close>, rounded to the nearest integer, a tie
  to the even one.
\<close>

definition round_half_even :: "int \<Rightarrow> nat \<Rightarrow> int" where
  "round_half_even m k =
     (let q = m div 2 ^ k; r = m mod 2 ^ k
      in if 2 * r > 2 ^ k \<or> (2 * r = 2 ^ k \<and> odd q) then q + 1 else q)"

text \<open>
  The binary64 value nearest to \<open>m * 2 ^ e\<close>, as IEEE 754 rounds every exact result: at
  most 53 significant bits, no exponent below \<open>-1074\<close> (gradual underflow), ties to even,
  and infinity from \<open>2 ^ 1024\<close> on.
\<close>

definition round_binary64 :: "int \<Rightarrow> int \<Rightarrow> binary64" where
  "round_binary64 m e =
     (let k = max (bit_length \<bar>m\<bar> - 53) (- 1074 - e);
          m' = (if k \<le> 0 then m else sgn m * round_half_even \<bar>m\<bar> (nat k));
          e' = (if k \<le> 0 then e else e + k)
      in if bit_length \<bar>m'\<bar> + e' > 1024 then Infinity (m < 0) else Finite m' e')"

fun float_mul :: "binary64 \<Rightarrow> binary64 \<Rightarrow> binary64" where
  "float_mul NaN y = NaN"
| "float_mul x NaN = NaN"
| "float_mul (Infinity s) (Infinity t) = Infinity (s \<noteq> t)"
| "float_mul (Infinity s) (Finite n f) = (if n = 0 then NaN else Infinity (s \<noteq> (n < 0)))"
| "float_mul (Finite m e) (Infinity t) = (if m = 0 then NaN else Infinity (t \<noteq> (m < 0)))"
| "float_mul (Finite m e) (Finite n f) = round_binary64 (m * n) (e + f)"

text \<open>
  \<^verbatim>\<open>a * c\<close> for a number \<open>a\<close> and an int \<open>c\<close>: the exact product of two ints, or the
  float product after the conversion of \<open>c\<close> to a float, which raises when \<open>c\<close> is too
  large for one.
\<close>

fun py_mul_int :: "py_number \<Rightarrow> int \<Rightarrow> py_error + py_number" where
  "py_mul_int (PyInt a) c = Inr (PyInt (a * c))"
| "py_mul_int (PyFloat x) c =
     (case round_binary64 c 0 of
        Infinity s \<Rightarrow> Inl OverflowError
      | y \<Rightarrow> Inr (PyFloat (float_mul x y)))"

text \<open>
  \<^verbatim>\<open>int(x)\<close>: an int is returned as it is, a finite float is truncated toward zero, and
  an infinity or a NaN raises.
\<close>

fun py_int :: "py_number \<Rightarrow> py_error + int" where
  "py_int (PyInt a) = Inr a"
| "py_int (PyFloat (Finite m e)) =
     Inr (if 0 \<le> e then m * 2 ^ nat e else sgn m * (\<bar>m\<bar> div 2 ^ nat (- e)))"
| "py_int (PyFloat (Infinity s)) = Inl OverflowError"
| "py_int (PyFloat NaN) = Inl ValueError"

subsection \<open>Balancing\<close>

definition hit_frames_weighted :: "frame_row list \<Rightarrow> frame_row list" where
  "hit_frames_weighted df_weighted = filter (\<lambda>row. weight row > 0) df_weighted"

definition non_hit_frames :: "frame_row list \<Rightarrow> frame_row list" where
  "non_hit_frames df_weighted = filter (\<lambda>row. weight row = 0) df_weighted"

text \<open>
  Lines 399-400 of \<^verbatim>\<open>balance_and_split_data\<close>: the product is the Python product of
  the balance ratio and the number of positives, and \<^verbatim>\<open>int\<close> truncates it.
\<close>

definition sample_size :: "frame_row list \<Rightarrow> py_number \<Rightarrow> py_error + int" where
  "sample_size df_weighted balance_ratio =
     (case py_mul_int balance_ratio (int (length (hit_frames_weighted df_weighted))) of
        Inl err \<Rightarrow> Inl err
      | Inr product \<Rightarrow>
          (case py_int product of
             Inl err \<Rightarrow> Inl err
           | Inr target_non_hit_count \<Rightarrow>
               Inr (min (int (length (non_hit_frames df_weighted))) target_non_hit_count)))"

text \<open>
  \<^verbatim>\<open>DataFrame.sample(n, random_state=SEED)\<close> without replacement takes the rows at the
  first \<open>n\<close> positions of \<^verbatim>\<open>RandomState(SEED).permutation(m)\<close>, for a table of \<open>m\<close> rows.
  The permutation is the shuffle of \<^verbatim>\<open>arange(m)\<close>, which for \<open>i\<close> from \<open>m - 1\<close> down to
  \<open>1\<close> swaps the entries at \<open>i\<close> and at a position \<open>j\<close> drawn from \<open>0, \<dots>, i\<close>.  The
  parameter \<open>rng\<close> is the seeded generator: \<open>rng m i\<close> is its draw at step \<open>i\<close> of the
  shuffle of \<open>m\<close> entries.
\<close>

fun shuffle_loop :: "(nat \<Rightarrow> nat) \<Rightarrow> nat \<Rightarrow> nat list \<Rightarrow> nat list" where
  "shuffle_loop random_interval 0 x = x"
| "shuffle_loop random_interval (Suc i) x =
     (let j = random_interval (Suc i) mod Suc (Suc i)
      in shuffle_loop random_interval i (x[Suc i := x ! j, j := x ! Suc i]))"

definition permutation :: "(nat \<Rightarrow> nat) \<Rightarrow> nat \<Rightarrow> nat list" where
  "permutation random_interval m = shuffle_loop random_interval (m - 1) [0..<m]"

definition sample_positions :: "(nat \<Rightarrow> nat \<Rightarrow> nat) \<Rightarrow> nat \<Rightarrow> nat \<Rightarrow> nat list" where
  "sample_positions rng m n = take n (permutation (rng m) m)"

text \<open>Line 402, for the sample size \<open>n\<close> that lines 399-400 computed.\<close>

definition sampled_non_hit :: "(nat \<Rightarrow> nat \<Rightarrow> nat) \<Rightarrow> frame_row list \<Rightarrow> int \<Rightarrow> frame_row list" where
  "sampled_non_hit rng df_weighted n =
     (if n > 0
      then map (\<lambda>k. non_hit_frames df_weighted ! k)
             (sample_positions rng (length (non_hit_frames df_weighted)) (nat n))
      else [])"

text \<open>
  Lines 399-405: the positives followed by the sampled negatives, then all rows in the
  order of a seeded permutation (\<^verbatim>\<open>sample(frac=1)\<close>).  An error is the exception that
  line 399 raises.
\<close>

definition balanced_df ::
  "(nat \<Rightarrow> nat \<Rightarrow> nat) \<Rightarrow> frame_row list \<Rightarrow> py_number \<Rightarrow> py_error + frame_row list" where
  "balanced_df rng df_weighted balance_ratio =
     (case sample_size df_weighted balance_ratio of
        Inl err \<Rightarrow> Inl err
      | Inr n \<Rightarrow>
          let both = hit_frames_weighted df_weighted @ sampled_non_hit rng df_weighted n
          in Inr (map (\<lambda>k. both ! k) (sample_positions rng (length both) (length both))))"

text \<open>A generator to run the model: it draws position 0 at every step.\<close>

definition zero_draws :: "nat \<Rightarrow> nat \<Rightarrow> nat" where
  "zero_draws m i = 0"

subsection \<open>Sequence preparation\<close>

text \<open>Lines 478-480 of \<^verbatim>\<open>get_sequences\<close>; \<^verbatim>\<open>range(start_idx, end_idx + 1)\<close> is
  \<open>[start_idx..end_idx]\<close>.  The code reaches these lines only with a hit row in the group,
  so \<open>sorted_paths\<close> is not empty and the clipped index is a position of the list.\<close>

definition extract_sequence :: "'a list \<Rightarrow> int \<Rightarrow> int \<Rightarrow> 'a list" where
  "extract_sequence sorted_paths hit_idx_sorted n_frames_sequence =
     (let num_total = int (length sorted_paths);
          half_window = n_frames_sequence div 2;
          start_idx = hit_idx_sorted - half_window;
          end_idx = hit_idx_sorted + half_window
      in map (\<lambda>i. sorted_paths ! nat (np_clip i 0 (num_total - 1))) [start_idx..end_idx])"

text \<open>An element of the list that \<^verbatim>\<open>get_sequences\<close> returns.\<close>

record sequence_item =
  sequence_paths :: "string list"
  target_coords :: "real \<times> real"
  item_video_id :: string
  shot_id :: string

text \<open>
  Lines 460-463: the column \<^verbatim>\<open>frame_num_int\<close> and the sort by it.  The lambda raises
  when the pattern does not match (\<open>None\<close>); the \<^verbatim>\<open>try\<close> block then counts the video
  as a parse skip.  The model sorts stably: rows with equal frame numbers, whose order
  pandas does not fix, keep the order of the group.
\<close>

definition frame_num_int :: "string \<Rightarrow> int option" where
  "frame_num_int x = search_frame_num (basename x)"

definition sort_by_frame_num :: "frame_row list \<Rightarrow> frame_row list option" where
  "sort_by_frame_num grp =
     (case those (map (\<lambda>row. frame_num_int (frame_path row)) grp) of
        None \<Rightarrow> None
      | Some nums \<Rightarrow> Some (map snd (sort_key fst (zip nums grp))))"

text \<open>Lines 467 and 469.\<close>

definition hit_rows :: "frame_row list \<Rightarrow> frame_row list" where
  "hit_rows group_sorted = filter (\<lambda>row. weight row = 1) group_sorted"

definition hit_row :: "frame_row list \<Rightarrow> frame_row" where
  "hit_row group_sorted = hit_rows group_sorted ! (length (hit_rows group_sorted) div 2)"

text \<open>\<^verbatim>\<open>xs.index(x)\<close> for an \<open>x\<close> that occurs in \<open>xs\<close>: its first position.\<close>

definition list_index :: "'a list \<Rightarrow> 'a \<Rightarrow> nat" where
  "list_index xs x = length (takeWhile (\<lambda>y. y \<noteq> x) xs)"

text \<open>The body of the loop over the videos (lines 456-487): what happens to one video.\<close>

datatype outcome =
  Success sequence_item
| Skipped_no_hit
| Skipped_no_landing
| Skipped_parse
| Skipped_short

definition process_video ::
  "(string \<times> real \<times> real) list \<Rightarrow> int \<Rightarrow> string \<Rightarrow> frame_row list \<Rightarrow> outcome" where
  "process_video landing_df_indexed n_frames_sequence vid grp =
     (let shot = basename vid
      in case sort_by_frame_num grp of
           None \<Rightarrow> Skipped_parse
         | Some group_sorted \<Rightarrow>
             let sorted_paths = map frame_path group_sorted
             in if hit_rows group_sorted = [] then Skipped_no_hit
                else
                  let hit_idx_sorted =
                        int (list_index sorted_paths (frame_path (hit_row group_sorted)))
                  in case map_of landing_df_indexed shot of
                       None \<Rightarrow> Skipped_no_landing
                     | Some target \<Rightarrow>
                         let seq_paths =
                               extract_sequence sorted_paths hit_idx_sorted n_frames_sequence
                         in if int (length seq_paths) = n_frames_sequence
                            then Success \<lparr>sequence_paths = seq_paths, target_coords = target,
                                          item_video_id = vid, shot_id = shot\<rparr>
                            else Skipped_short)"

text \<open>
  \<^verbatim>\<open>groupby('video_id')\<close>: one group for each video identifier, in the sorted order of
  the identifiers, each with its rows in the order of the table.
\<close>

definition groupby_video_id :: "frame_row list \<Rightarrow> (string \<times> frame_row list) list" where
  "groupby_video_id df =
     map (\<lambda>v. (v, filter (\<lambda>row. video_id row = v) df)) (sort (remdups (map video_id df)))"

text \<open>The list built by the loop and the four counters that the summary prints.\<close>

record summary =
  sequences_for_dataset :: "sequence_item list"
  skipped_no_hit :: nat
  skipped_no_landing :: nat
  skipped_parse :: nat
  skipped_short :: nat

definition count_outcome :: "outcome \<Rightarrow> summary \<Rightarrow> summary" where
  "count_outcome r s =
     (case r of
        Success item \<Rightarrow> s\<lparr>sequences_for_dataset := sequences_for_dataset s @ [item]\<rparr>
      | Skipped_no_hit \<Rightarrow> s\<lparr>skipped_no_hit := skipped_no_hit s + 1\<rparr>
      | Skipped_no_landing \<Rightarrow> s\<lparr>skipped_no_landing := skipped_no_landing s + 1\<rparr>
      | Skipped_parse \<Rightarrow> s\<lparr>skipped_parse := skipped_parse s + 1\<rparr>
      | Skipped_short \<Rightarrow> s\<lparr>skipped_short := skipped_short s + 1\<rparr>)"

fun video_loop ::
  "(string \<times> real \<times> real) list \<Rightarrow> int \<Rightarrow> (string \<times> frame_row list) list \<Rightarrow> summary \<Rightarrow> summary" where
  "video_loop landing_df_indexed n_frames_sequence [] s = s"
| "video_loop landing_df_indexed n_frames_sequence ((vid, grp) # video_groups) s =
     video_loop landing_df_indexed n_frames_sequence video_groups
       (count_outcome (process_video landing_df_indexed n_frames_sequence vid grp) s)"

text \<open>
  \<^verbatim>\<open>get_sequences\<close> (lines 442-493).  \<open>None\<close> is the early return of line 447: an error
  message, the empty list, and no summary.  \<open>Some s\<close> is the return of
  \<open>sequences_for_dataset s\<close> after the summary has printed the length of that list as the
  success count, and the four skip counters.
\<close>

definition get_sequences ::
  "frame_row list \<Rightarrow> (string \<times> real \<times> real) list \<Rightarrow> int \<Rightarrow> summary option" where
  "get_sequences cnn1_balanced_df landing_df_indexed n_frames_sequence =
     (if cnn1_balanced_df = [] \<or> landing_df_indexed = [] then None
      else Some (video_loop landing_df_indexed n_frames_sequence
                   (groupby_video_id cnn1_balanced_df)
                   \<lparr>sequences_for_dataset = [], skipped_no_hit = 0, skipped_no_landing = 0,
                    skipped_parse = 0, skipped_short = 0\<rparr>))"

text \<open>The outcomes of all videos of a table, and how many of them satisfy a condition.\<close>

definition outcomes :: "frame_row list \<Rightarrow> (string \<times> real \<times> real) list \<Rightarrow> int \<Rightarrow> outcome list" where
  "outcomes df landing_df_indexed n_frames_sequence =
     map (\<lambda>(vid, grp). process_video landing_df_indexed n_frames_sequence vid grp)
       (groupby_video_id df)"

fun successes :: "outcome list \<Rightarrow> sequence_item list" where
  "successes [] = []"
| "successes (Success item # rs) = item # successes rs"
| "successes (_ # rs) = successes rs"

subsection \<open>Datasets\<close>

text \<open>
  An image tensor in channel, height, width layout, and \<^verbatim>\<open>torch.zeros((c, h, w))\<close>.
  \<^verbatim>\<open>torch.cat(tensors, dim=0)\<close> is \<^const>\<open>concat\<close>.
\<close>

type_synonym tensor = "real list list list"

definition zeros :: "nat \<Rightarrow> nat \<Rightarrow> nat \<Rightarrow> tensor" where
  "zeros c h w = replicate c (replicate h (replicate w 0))"

text \<open>
  \<^verbatim>\<open>xs[i]\<close> on a Python list: positions \<open>0\<close> to \<open>len - 1\<close>, the positions
  \<open>-len\<close> to \<open>-1\<close> read from the end, and an \<^verbatim>\<open>IndexError\<close> for every other index.
\<close>

definition py_getitem :: "'a list \<Rightarrow> int \<Rightarrow> py_error + 'a" where
  "py_getitem xs i =
     (if 0 \<le> i \<and> i < int (length xs) then Inr (xs ! nat i)
      else if i < 0 \<and> - int (length xs) \<le> i then Inr (xs ! nat (int (length xs) + i))
      else Inl IndexError)"

text \<open>The fields that both dataset classes set in \<^verbatim>\<open>__init__\<close>, and the two classes.\<close>

record dataset_config =
  img_height :: nat
  img_width :: nat
  augment :: bool

record tennis_frame_dataset = dataset_config +
  paths :: "string list"
  targets :: "real list"

record ball_landing_dataset = dataset_config +
  sequence_data :: "sequence_item list"
  n_frames_sequence :: nat

text \<open>
  \<^verbatim>\<open>TennisFrameDataset.__getitem__\<close> (lines 629-648).  The parameter \<open>load_image\<close> is the
  body of the \<^verbatim>\<open>try\<close> block up to the image tensor (read, augment or convert, resize,
  scale, transpose), given the augment flag and the path: \<open>None\<close> when
  \<^verbatim>\<open>cv2.imread\<close> returns nothing or a step raises.
\<close>

definition tennis_getitem ::
  "(bool \<Rightarrow> string \<Rightarrow> tensor option) \<Rightarrow> 'a tennis_frame_dataset_scheme \<Rightarrow> int
     \<Rightarrow> py_error + (tensor \<times> real)" where
  "tennis_getitem load_image self idx =
     (case py_getitem (paths self) idx of
        Inl e \<Rightarrow> Inl e
      | Inr img_path \<Rightarrow>
          (case py_getitem (targets self) idx of
             Inl e \<Rightarrow> Inl e
           | Inr target \<Rightarrow>
               (case load_image (augment self) img_path of
                  Some img_tensor \<Rightarrow> Inr (img_tensor, target)
                | None \<Rightarrow> Inr (zeros 3 (img_height self) (img_width self), 0))))"

text \<open>
  The loop of \<^verbatim>\<open>BallLandingDataset.__getitem__\<close> (lines 663-679) over
  \<^verbatim>\<open>enumerate(frame_paths)\<close>, with the state
  \<open>(sequence_tensors, global_flip_status)\<close>.  Here \<open>load_frame\<close> takes the augment flag,
  the position \<open>i\<close> and the path, and returns the tensor with the flip status that
  \<^verbatim>\<open>apply_augmentations\<close> reports, or \<open>None\<close> when the \<^verbatim>\<open>try\<close> block raises.
\<close>

fun frame_loop ::
  "(bool \<Rightarrow> nat \<Rightarrow> string \<Rightarrow> (tensor \<times> bool) option) \<Rightarrow> 'a ball_landing_dataset_scheme \<Rightarrow> nat
     \<Rightarrow> string list \<Rightarrow> tensor list \<times> bool \<Rightarrow> tensor list \<times> bool" where
  "frame_loop load_frame self i [] st = st"
| "frame_loop load_frame self i (p # ps) (sequence_tensors, global_flip_status) =
     frame_loop load_frame self (Suc i) ps
       (case load_frame (augment self) i p of
          Some (img, was_flipped) \<Rightarrow>
            (sequence_tensors @ [img],
             if augment self \<and> i = 0 then was_flipped else global_flip_status)
        | None \<Rightarrow>
            (sequence_tensors @ [zeros 3 (img_height self) (img_width self)],
             if i = 0 then False else global_flip_status))"

text \<open>
  \<^verbatim>\<open>BallLandingDataset.__getitem__\<close> (lines 659-691).  The second \<^verbatim>\<open>try\<close> block
  raises when the number of tensors is not the configured one, and so does
  \<^verbatim>\<open>torch.cat\<close> on an empty list; either way the item is the zero tensor with the
  zero target.  Every tensor in the list has the shape \<open>3 \<times> img_height \<times> img_width\<close>
  of the resized frame.
\<close>

definition ball_getitem ::
  "(bool \<Rightarrow> nat \<Rightarrow> string \<Rightarrow> (tensor \<times> bool) option) \<Rightarrow> 'a ball_landing_dataset_scheme \<Rightarrow> int
     \<Rightarrow> py_error + (tensor \<times> real \<times> real)" where
  "ball_getitem load_frame self idx =
     (case py_getitem (sequence_data self) idx of
        Inl e \<Rightarrow> Inl e
      | Inr item \<Rightarrow>
          (case frame_loop load_frame self 0 (sequence_paths item) ([], False) of
             (sequence_tensors, global_flip_status) \<Rightarrow>
               let target = (if global_flip_status
                             then (1 - fst (target_coords item), snd (target_coords item))
                             else target_coords item)
               in if length sequence_tensors \<noteq> n_frames_sequence self \<or> sequence_tensors = []
                  then Inr (zeros (n_frames_sequence self * 3) (img_height self) (img_width self),
                            (0, 0))
                  else Inr (concat sequence_tensors, target)))"

text \<open>What one frame contributes to the stacked tensor: its image, or black when it fails.\<close>

definition frame_or_black ::
  "(bool \<Rightarrow> nat \<Rightarrow> string \<Rightarrow> (tensor \<times> bool) option) \<Rightarrow> 'a ball_landing_dataset_scheme
     \<Rightarrow> nat \<times> string \<Rightarrow> tensor" where
  "frame_or_black load_frame self ip =
     (case load_frame (augment self) (fst ip) (snd ip) of
        Some (img, was_flipped) \<Rightarrow> img
      | None \<Rightarrow> zeros 3 (img_height self) (img_width self))"

text \<open>
  The flip status after the loop, started with \<open>False\<close>: only the first frame sets it,
  to what the augmentation reports when augmentation is on and the frame loads, and to
  \<open>False\<close> when the frame fails.
\<close>

definition first_frame_flip ::
  "(bool \<Rightarrow> nat \<Rightarrow> string \<Rightarrow> (tensor \<times> bool) option) \<Rightarrow> 'a ball_landing_dataset_scheme
     \<Rightarrow> string list \<Rightarrow> bool" where
  "first_frame_flip load_frame self frame_paths =
     (case frame_paths of
        [] \<Rightarrow> False
      | p # ps \<Rightarrow>
          (case load_frame (augment self) 0 p of
             Some (img, was_flipped) \<Rightarrow> augment self \<and> was_flipped
           | None \<Rightarrow> False))"

subsection \<open>Hit-frame selection at inference\<close>

text \<open>An entry of \<^verbatim>\<open>predictions_cnn1\<close>.\<close>

record prediction =
  pred_path :: string
  pred_score :: real

text \<open>
  The loop of lines 1164-1175 over the sorted frame paths.  \<open>cnn1_score p\<close> is the score of
  the model on the frame at \<open>p\<close>, or \<open>None\<close> when the frame cannot be read or a step raises:
  such a frame adds no prediction.
\<close>

definition predictions_cnn1 :: "(string \<Rightarrow> real option) \<Rightarrow> string list \<Rightarrow> prediction list" where
  "predictions_cnn1 cnn1_score sorted_frame_paths =
     List.map_filter
       (\<lambda>p. map_option (\<lambda>s. \<lparr>pred_path = p, pred_score = s\<rparr>) (cnn1_score p))
       sorted_frame_paths"

text \<open>
  Python's \<^verbatim>\<open>max(iterable, key=...)\<close> on a non-empty iterable: the running maximum starts
  at the first item and is replaced only by an item whose key is strictly greater.
\<close>

fun py_max :: "('a \<Rightarrow> real) \<Rightarrow> 'a \<Rightarrow> 'a list \<Rightarrow> 'a" where
  "py_max key maxitem [] = maxitem"
| "py_max key maxitem (item # rest) =
     py_max key (if key item > key maxitem then item else maxitem) rest"

text \<open>Lines 1176-1177; \<open>None\<close> is the return of line 1176 when there is no prediction.\<close>

definition best_hit :: "(string \<Rightarrow> real option) \<Rightarrow> string list \<Rightarrow> prediction option" where
  "best_hit cnn1_score sorted_frame_paths =
     (case predictions_cnn1 cnn1_score sorted_frame_paths of
        [] \<Rightarrow> None
      | first # rest \<Rightarrow> Some (py_max pred_score first rest))"

subsection \<open>Example inputs\<close>

text \<open>A video of twenty frames, numbered 0 to 19, with the hit marked on frame 10.\<close>

definition twenty_frames :: "frame_row list" where
  "twenty_frames =
     [meta_row ''Frames/ICT01/frame_0000.jpg'' 0, meta_row ''Frames/ICT01/frame_0001.jpg'' 0,
      meta_row ''Frames/ICT01/frame_0002.jpg'' 0, meta_row ''Frames/ICT01/frame_0003.jpg'' 0,
      meta_row ''Frames/ICT01/frame_0004.jpg'' 0, meta_row ''Frames/ICT01/frame_0005.jpg'' 0,
      meta_row ''Frames/ICT01/frame_0006.jpg'' 0, meta_row ''Frames/ICT01/frame_0007.jpg'' 0,
      meta_row ''Frames/ICT01/frame_0008.jpg'' 0, meta_row ''Frames/ICT01/frame_0009.jpg'' 0,
      meta_row ''Frames/ICT01/frame_0010.jpg'' 1, meta_row ''Frames/ICT01/frame_0011.jpg'' 0,
      meta_row ''Frames/ICT01/frame_0012.jpg'' 0, meta_row ''Frames/ICT01/frame_0013.jpg'' 0,
      meta_row ''Frames/ICT01/frame_0014.jpg'' 0, meta_row ''Frames/ICT01/frame_0015.jpg'' 0,
      meta_row ''Frames/ICT01/frame_0016.jpg'' 0, meta_row ''Frames/ICT01/frame_0017.jpg'' 0,
      meta_row ''Frames/ICT01/frame_0018.jpg'' 0, meta_row ''Frames/ICT01/frame_0019.jpg'' 0]"

text \<open>A video with three frames in order, the hit marked on the middle one.\<close>

definition three_frames :: "frame_row list" where
  "three_frames =
     [meta_row ''Frames/IST07/frame_0003.jpg'' 0, meta_row ''Frames/IST07/frame_0004.jpg'' 1,
      meta_row ''Frames/IST07/frame_0005.jpg'' 0]"

text \<open>
  A video whose second file name carries no frame number: its frame number falls back to
  its position, 1, which is also the number of the marked frame.
\<close>

definition fallback_video :: "frame_row list" where
  "fallback_video =
     [meta_row ''Frames/ICT02/frame_0001.jpg'' 1, meta_row ''Frames/ICT02/thumb.jpg'' 0,
      meta_row ''Frames/ICT02/frame_0003.jpg'' 0]"

text \<open>A video with two marked frames, 3 and 4, followed by an unmarked one.\<close>

definition two_hit_video :: "frame_row list" where
  "two_hit_video =
     [meta_row ''Frames/ICT03/frame_0003.jpg'' 1, meta_row ''Frames/ICT03/frame_0004.jpg'' 1,
      meta_row ''Frames/ICT03/frame_0005.jpg'' 0]"

text \<open>The two marked rows of that video, both with weight 1.\<close>

definition two_full_weights :: "frame_row list" where
  "two_full_weights =
     [(meta_row ''Frames/ICT03/frame_0003.jpg'' 1)\<lparr>weight := 1\<rparr>,
      (meta_row ''Frames/ICT03/frame_0004.jpg'' 1)\<lparr>weight := 1\<rparr>]"

text \<open>A landing table with a record for the shot \<open>ICT03\<close> of those two rows.\<close>

definition ict03_landing :: "(string \<times> real \<times> real) list" where
  "ict03_landing = [(''ICT03'', 1/2, 1/2)]"

text \<open>
  A balanced table with the rows of two videos, not in order, and a landing table that
  has a record for the shot \<open>IST07\<close> only.
\<close>

definition two_video_batch :: "frame_row list" where
  "two_video_batch =
     [(meta_row ''Frames/IST07/frame_0004.jpg'' 1)\<lparr>weight := 1\<rparr>,
      (meta_row ''Frames/ICT03/frame_0004.jpg'' 1)\<lparr>weight := 1\<rparr>,
      (meta_row ''Frames/IST07/frame_0003.jpg'' 0)\<lparr>weight := 7/10\<rparr>,
      (meta_row ''Frames/IST07/frame_0005.jpg'' 0)\<lparr>weight := 7/10\<rparr>,
      (meta_row ''Frames/ICT03/frame_0003.jpg'' 0)\<lparr>weight := 7/10\<rparr>]"

definition one_landing :: "(string \<times> real \<times> real) list" where
  "one_landing = [(''IST07'', 1/4, 3/4)]"

text \<open>
  Four frames of a directory in sorted order and their scores: the second frame cannot be
  read, the third and the fourth share the highest score.
\<close>

definition four_paths :: "string list" where
  "four_paths =
     [''ICT09/frame_0001.jpg'', ''ICT09/frame_0002.jpg'', ''ICT09/frame_0003.jpg'',
      ''ICT09/frame_0004.jpg'']"

definition four_scores :: "string \<Rightarrow> real option" where
  "four_scores p =
     (if p = ''ICT09/frame_0002.jpg'' then None
      else if p = ''ICT09/frame_0001.jpg'' then Some (1/5)
      else Some (9/10))"

text \<open>
  A single-frame dataset with one frame of target weight 1 whose file cannot be read, and
  a sequence dataset with one sequence of three frames of which the second cannot be read.
\<close>

definition unreadable :: "bool \<Rightarrow> string \<Rightarrow> tensor option" where
  "unreadable aug p = None"

definition one_frame_dataset :: tennis_frame_dataset where
  "one_frame_dataset =
     \<lparr>img_height = 1, img_width = 1, augment = False,
      paths = [''Frames/IST07/frame_0004.jpg''], targets = [1]\<rparr>"

definition grey :: tensor where
  "grey = [[[1/2]], [[1/2]], [[1/2]]]"

definition second_unreadable :: "bool \<Rightarrow> nat \<Rightarrow> string \<Rightarrow> (tensor \<times> bool) option" where
  "second_unreadable aug i p = (if i = 1 then None else Some (grey, False))"

definition one_sequence_dataset :: ball_landing_dataset where
  "one_sequence_dataset =
     \<lparr>img_height = 1, img_width = 1, augment = False,
      sequence_data =
        [\<lparr>sequence_paths = [''Frames/IST07/frame_0003.jpg'', ''Frames/IST07/frame_0004.jpg'',
                             ''Frames/IST07/frame_0005.jpg''],
          target_coords = (1/4, 3/4), item_video_id = ''Frames/IST07'', shot_id = ''IST07''\<rparr>],
      n_frames_sequence = 3\<rparr>"

text \<open>A row that carries only a weight, and two weighted tables built from such rows.\<close>

definition weighted_row :: "real \<Rightarrow> frame_row" where
  "weighted_row w = (meta_row ''Frames/ICT01/frame_0000.jpg'' 0)\<lparr>weight := w\<rparr>"

definition ten_positive_hundred_negative :: "frame_row list" where
  "ten_positive_hundred_negative = replicate 10 (weighted_row 1) @ replicate 100 (weighted_row 0)"

definition one_positive_two_negative :: "frame_row list" where
  "one_positive_two_negative = [weighted_row 1, weighted_row 0, weighted_row 0]"

definition ten_positive_thirty_negative :: "frame_row list" where
  "ten_positive_thirty_negative = replicate 10 (weighted_row 1) @ replicate 30 (weighted_row 0)"

definition twentyfive_positive_thirty_negative :: "frame_row list" where
  "twentyfive_positive_thirty_negative =
     replicate 25 (weighted_row 1) @ replicate 30 (weighted_row 0)"

text \<open>
  The floats \<^verbatim>\<open>0.7\<close>, \<^verbatim>\<open>1.16\<close> and \<^verbatim>\<open>1.75\<close>: the binary64 values nearest to these
  decimals.
\<close>

definition float_0_7 :: py_number where
  "float_0_7 = PyFloat (Finite 3152519739159347 (- 52))"

definition float_1_16 :: py_number where
  "float_1_16 = PyFloat (Finite 5224175567749775 (- 52))"

definition float_1_75 :: py_number where
  "float_1_75 = PyFloat (Finite 7 (- 2))"

subsection \<open>Properties of the coordinate mapping\<close>

text \<open>
  Claim C5.  \<^const>\<open>map_coordinates\<close> returns the null pair exactly when a distance or the
  shot type is missing, the shot type is neither \<open>Straight\<close> nor \<open>Cross\<close>, or a court
  dimension is not positive; otherwise it returns
  \<open>y = clip (dist_baseline / court_length) 0 1\<close> together with
  \<open>x = clip ((court_width - dist_sideline) / court_width) 0 1\<close> for \<open>Straight\<close> and
  \<open>x = clip (dist_sideline / court_width) 0 1\<close> for \<open>Cross\<close>.
\<close>

theorem map_coordinates_spec:
  "(map_coordinates ds db st w l = (None, None)
      \<longleftrightarrow> (ds = None \<or> db = None \<or> st = None
           \<or> (st \<noteq> Some ''Straight'' \<and> st \<noteq> Some ''Cross'') \<or> w \<le> 0 \<or> l \<le> 0))
   \<and> (0 < w \<and> 0 < l \<longrightarrow>
        map_coordinates (Some s) (Some b) (Some ''Straight'') w l
          = (Some (np_clip ((w - s) / w) 0 1), Some (np_clip (b / l) 0 1))
      \<and> map_coordinates (Some s) (Some b) (Some ''Cross'') w l
          = (Some (np_clip (s / w) 0 1), Some (np_clip (b / l) 0 1)))"
  by (auto simp: map_coordinates_def Let_def split: option.splits)

theorem map_coordinates_spec_witness:
  "map_coordinates (Some 1) (Some 6) (Some ''Straight'') 2 12 = (Some (1/2), Some (1/2))
   \<and> map_coordinates (Some 1) (Some 6) (Some ''Cross'') 2 12 = (Some (1/2), Some (1/2))
   \<and> map_coordinates (Some 1) (Some 6) (Some ''Lob'') 2 12 = (None, None)
   \<and> map_coordinates None (Some 6) (Some ''Cross'') 2 12 = (None, None)
   \<and> map_coordinates (Some 1) (Some 6) (Some ''Cross'') 0 12 = (None, None)"
  using map_coordinates_spec [of "Some 1" "Some 6" "Some ''Straight''" 2 12 1 6]
    map_coordinates_spec [of "Some 1" "Some 6" "Some ''Lob''" 2 12 1 6]
    map_coordinates_spec [of None "Some 6" "Some ''Cross''" 2 12 1 6]
    map_coordinates_spec [of "Some 1" "Some 6" "Some ''Cross''" 0 12 1 6]
  by (simp add: np_clip_def)

text \<open>
  Claim C3.  For \<open>(x, y)\<close> in the unit square and positive court dimensions, mapping the
  distances that \<^const>\<open>denormalize_coordinates\<close> returns gives \<open>(x, y)\<close> back, for each
  shot type with its own sideline distance: the distance from the right sideline for
  \<open>Straight\<close>, the distance from the left sideline for \<open>Cross\<close>.  Over the reals the
  reconstruction is exact.
\<close>

theorem coordinate_round_trip:
  assumes "0 \<le> x" "x \<le> 1" "0 \<le> y" "y \<le> 1" "0 < w" "0 < l"
  shows "map_coordinates (dist_right (denormalize_coordinates x y w l))
           (dist_baseline_of (denormalize_coordinates x y w l)) (Some ''Straight'') w l
           = (Some x, Some y)
       \<and> map_coordinates (dist_left (denormalize_coordinates x y w l))
           (dist_baseline_of (denormalize_coordinates x y w l)) (Some ''Cross'') w l
           = (Some x, Some y)"
proof -
  have d: "denormalize_coordinates x y w l = (Some (x * w), Some (w - x * w), Some (y * l))"
    using assms by (simp add: denormalize_coordinates_def np_clip_def Let_def)
  have "(w - (w - x * w)) / w = x" "x * w / w = x" "y * l / l = y"
    using assms by simp_all
  then show ?thesis
    using assms
    by (simp add: d dist_left_def dist_right_def dist_baseline_of_def map_coordinates_def
          np_clip_def)
qed

theorem coordinate_round_trip_witness:
  "map_coordinates (dist_right (denormalize_coordinates (1/4) (3/4) 10 12))
     (dist_baseline_of (denormalize_coordinates (1/4) (3/4) 10 12)) (Some ''Straight'') 10 12
     = (Some (1/4), Some (3/4))
   \<and> map_coordinates (dist_left (denormalize_coordinates (1/4) (3/4) 10 12))
     (dist_baseline_of (denormalize_coordinates (1/4) (3/4) 10 12)) (Some ''Cross'') 10 12
     = (Some (1/4), Some (3/4))"
  using coordinate_round_trip [of "1/4" "3/4" 10 12] by simp

subsection \<open>Properties of the weight assignment\<close>

lemma hit_frames_empty:
  "hit_frames grp = [] \<longleftrightarrow> (\<forall>row \<in> set grp. is_hit_frame row \<noteq> 1)"
  by (fastforce simp: hit_frames_def filter_empty_conv in_set_conv_nth)

lemma middle_hit_less:
  assumes "hit_frames grp \<noteq> []"
  shows "middle_hit grp < length grp"
proof -
  have "length (hit_frames grp) div 2 < length (hit_frames grp)"
    using assms by simp
  then have "middle_hit grp \<in> set (hit_frames grp)"
    unfolding middle_hit_def by simp
  then show ?thesis
    by (simp add: hit_frames_def)
qed

lemma length_assign_linear_weights:
  "length (assign_linear_weights grp tw d) = length grp"
  by (simp add: assign_linear_weights_def Let_def)

lemma weight_assign_nth:
  assumes "hit_frames grp \<noteq> []" "i < length grp"
  shows "weight (assign_linear_weights grp tw d ! i) =
     (if i = middle_hit grp then 1
      else if \<bar>frame_num grp i - frame_num grp (middle_hit grp)\<bar> \<le> tw div 2
        then max 0 (1 - real_of_int \<bar>frame_num grp i - frame_num grp (middle_hit grp)\<bar> * d)
      else 0)"
  using assms by (simp add: assign_linear_weights_def Let_def)

text \<open>
  Claim C1.  A group without a marked hit frame gets weight 0 on every row.  Otherwise, for
  a non-negative window size, the weight of a row depends only on the distance \<open>d\<close> between
  its frame number and the frame number of the chosen hit row: 1 at distance 0,
  \<open>max 0 (1 - d * decay_rate)\<close> for \<open>0 < d \<le> window div 2\<close>, and 0 beyond.
\<close>

theorem assign_linear_weights_by_distance:
  assumes "0 \<le> total_frames_window" and "i < length grp"
  shows "length (assign_linear_weights grp total_frames_window decay_rate) = length grp
    \<and> ((\<forall>row \<in> set grp. is_hit_frame row \<noteq> 1) \<longrightarrow>
         weight (assign_linear_weights grp total_frames_window decay_rate ! i) = 0)
    \<and> ((\<exists>row \<in> set grp. is_hit_frame row = 1) \<longrightarrow>
         weight (assign_linear_weights grp total_frames_window decay_rate ! i) =
           (let d = \<bar>frame_num grp i - frame_num grp (middle_hit grp)\<bar>
            in if d = 0 then 1
               else if d \<le> total_frames_window div 2 then max 0 (1 - real_of_int d * decay_rate)
               else 0))"
proof (intro conjI impI)
  show "length (assign_linear_weights grp total_frames_window decay_rate) = length grp"
    by (rule length_assign_linear_weights)
next
  assume "\<forall>row \<in> set grp. is_hit_frame row \<noteq> 1"
  then have "hit_frames grp = []"
    by (simp add: hit_frames_empty)
  then show "weight (assign_linear_weights grp total_frames_window decay_rate ! i) = 0"
    using assms(2) by (simp add: assign_linear_weights_def)
next
  assume "\<exists>row \<in> set grp. is_hit_frame row = 1"
  then have ne: "hit_frames grp \<noteq> []"
    by (auto simp: hit_frames_empty)
  have half: "0 \<le> total_frames_window div 2"
    using assms(1) by simp
  show "weight (assign_linear_weights grp total_frames_window decay_rate ! i) =
           (let d = \<bar>frame_num grp i - frame_num grp (middle_hit grp)\<bar>
            in if d = 0 then 1
               else if d \<le> total_frames_window div 2 then max 0 (1 - real_of_int d * decay_rate)
               else 0)"
    using half by (auto simp: weight_assign_nth[OF ne assms(2)] Let_def)
qed

text \<open>
  The scenario of the specification: twenty frames, the hit on frame 10, window 9 and decay
  0.3 give weight 1 on frame 10, 0.4 on frame 12 and 0 on frame 15.
\<close>

lemma twenty_frames_nums:
  "middle_hit twenty_frames = 10" "frame_num twenty_frames 10 = 10"
  "frame_num twenty_frames 12 = 12" "frame_num twenty_frames 15 = 15"
  by code_simp+

theorem assign_linear_weights_by_distance_witness:
  "weight (assign_linear_weights twenty_frames 9 (3/10) ! 10) = 1
   \<and> weight (assign_linear_weights twenty_frames 9 (3/10) ! 12) = 4/10
   \<and> weight (assign_linear_weights twenty_frames 9 (3/10) ! 15) = 0"
proof -
  have w: "(0::int) \<le> 9" by simp
  have len: "10 < length twenty_frames" "12 < length twenty_frames" "15 < length twenty_frames"
    by (simp_all add: twenty_frames_def)
  have hit: "\<exists>row \<in> set twenty_frames. is_hit_frame row = 1"
    by (simp add: twenty_frames_def meta_row_def)
  show ?thesis
    using assign_linear_weights_by_distance [OF w len(1), of "3/10"]
      assign_linear_weights_by_distance [OF w len(2), of "3/10"]
      assign_linear_weights_by_distance [OF w len(3), of "3/10"] hit
    by (simp add: twenty_frames_nums)
qed

lemma tri_bounds:
  "0 \<le> x \<Longrightarrow> 0 \<le> (if c then 1 else if a then max 0 (1 - x) else (0::real))
     \<and> (if c then 1 else if a then max 0 (1 - x) else (0::real)) \<le> 1"
  by (simp add: max_def)

lemma tri_peak:
  "0 < x \<Longrightarrow> (if c then 1 else if a then max 0 (1 - x) else (0::real)) = 1 \<Longrightarrow> c"
  by (simp add: max_def split: if_splits)

lemma count_single: "c < n \<Longrightarrow> length (filter (\<lambda>i. i = c) [0..<n]) = 1"
proof (induction n)
  case 0
  then show ?case by simp
next
  case (Suc n)
  show ?case
  proof (cases "c = n")
    case True
    then have "filter (\<lambda>i. i = c) [0..<n] = []"
      by (auto simp: filter_empty_conv)
    with True show ?thesis by simp
  next
    case False
    with Suc show ?thesis by simp
  qed
qed

text \<open>
  Claim C6, as the code has it.  In a video with a marked hit frame and a positive decay
  rate, the chosen hit row has weight exactly 1, every weight lies in \<open>[0, 1]\<close>, and a row
  of weight exactly 1 has the frame number of the chosen hit row; so exactly one row has
  weight 1 when no other row shares that frame number.
\<close>

theorem weight_peak:
  assumes hit: "\<exists>row \<in> set grp. is_hit_frame row = 1" and decay: "0 < decay_rate"
  shows "middle_hit grp < length grp
    \<and> weight (assign_linear_weights grp total_frames_window decay_rate ! middle_hit grp) = 1
    \<and> (\<forall>i < length grp.
          0 \<le> weight (assign_linear_weights grp total_frames_window decay_rate ! i)
        \<and> weight (assign_linear_weights grp total_frames_window decay_rate ! i) \<le> 1
        \<and> (weight (assign_linear_weights grp total_frames_window decay_rate ! i) = 1
             \<longrightarrow> frame_num grp i = frame_num grp (middle_hit grp)))
    \<and> ((\<forall>i < length grp. i \<noteq> middle_hit grp
            \<longrightarrow> frame_num grp i \<noteq> frame_num grp (middle_hit grp))
         \<longrightarrow> count_full_weight (assign_linear_weights grp total_frames_window decay_rate) = 1)"
proof -
  let ?A = "assign_linear_weights grp total_frames_window decay_rate"
  let ?m = "middle_hit grp"
  from hit have ne: "hit_frames grp \<noteq> []"
    by (auto simp: hit_frames_empty)
  have m: "?m < length grp"
    by (rule middle_hit_less[OF ne])
  have peak: "weight (?A ! ?m) = 1"
    by (simp add: weight_assign_nth[OF ne m])
  have range: "0 \<le> weight (?A ! i) \<and> weight (?A ! i) \<le> 1
        \<and> (weight (?A ! i) = 1 \<longrightarrow> frame_num grp i = frame_num grp ?m)"
    if i: "i < length grp" for i
  proof -
    let ?d = "\<bar>frame_num grp i - frame_num grp ?m\<bar>"
    have nonneg: "0 \<le> real_of_int ?d * decay_rate"
      using decay by simp
    have pos: "0 < real_of_int ?d * decay_rate" if "frame_num grp i \<noteq> frame_num grp ?m"
      using decay that by simp
    show ?thesis
    proof (cases "frame_num grp i = frame_num grp ?m")
      case True
      then show ?thesis
        by (simp add: weight_assign_nth[OF ne i])
    next
      case False
      have "weight (?A ! i) \<noteq> 1"
        unfolding weight_assign_nth[OF ne i] using tri_peak[OF pos[OF False]] False by blast
      then show ?thesis
        unfolding weight_assign_nth[OF ne i] using tri_bounds[OF nonneg] by blast
    qed
  qed
  have one: "count_full_weight ?A = 1"
    if dist: "\<forall>i < length grp. i \<noteq> ?m \<longrightarrow> frame_num grp i \<noteq> frame_num grp ?m"
  proof -
    have eq: "weight (?A ! i) = 1 \<longleftrightarrow> i = ?m" if i: "i < length grp" for i
      using range[OF i] dist i peak by auto
    have "?A = map (\<lambda>i. ?A ! i) [0..<length grp]"
      by (metis length_assign_linear_weights map_nth)
    then have "count_full_weight ?A
        = length (filter (\<lambda>row. weight row = 1) (map (\<lambda>i. ?A ! i) [0..<length grp]))"
      by (simp add: count_full_weight_def)
    also have "\<dots> = length (filter (\<lambda>i. weight (?A ! i) = 1) [0..<length grp])"
      by (simp add: filter_map comp_def)
    also have "filter (\<lambda>i. weight (?A ! i) = 1) [0..<length grp]
        = filter (\<lambda>i. i = ?m) [0..<length grp]"
      by (rule filter_cong) (auto simp: eq)
    also have "length \<dots> = 1"
      by (rule count_single[OF m])
    finally show ?thesis .
  qed
  from m peak range one show ?thesis by blast
qed

lemma three_frames_nums:
  "middle_hit three_frames = 1" "frame_num three_frames 0 = 3"
  "frame_num three_frames 1 = 4" "frame_num three_frames 2 = 5"
  by code_simp+

theorem weight_peak_witness:
  "weight (assign_linear_weights three_frames 9 (3/10) ! 1) = 1
   \<and> count_full_weight (assign_linear_weights three_frames 9 (3/10)) = 1"
proof -
  have hit: "\<exists>row \<in> set three_frames. is_hit_frame row = 1"
    by (simp add: three_frames_def meta_row_def)
  have decay: "(0::real) < 3/10" by simp
  have len: "length three_frames = 3"
    by (simp add: three_frames_def)
  have ne0: "frame_num three_frames 0 \<noteq> frame_num three_frames (middle_hit three_frames)"
    by (simp only: three_frames_nums)
  have ne2: "frame_num three_frames 2 \<noteq> frame_num three_frames (middle_hit three_frames)"
    by (simp only: three_frames_nums)
  have others: "\<forall>i < length three_frames. i \<noteq> middle_hit three_frames
      \<longrightarrow> frame_num three_frames i \<noteq> frame_num three_frames (middle_hit three_frames)"
  proof (intro allI impI)
    fix i
    assume a: "i < length three_frames" and b: "i \<noteq> middle_hit three_frames"
    have "i < 3"
      using a unfolding len .
    moreover have "i \<noteq> 1"
      using b unfolding three_frames_nums(1) .
    ultimately have "i = 0 \<or> i = 2"
      by arith
    then show "frame_num three_frames i \<noteq> frame_num three_frames (middle_hit three_frames)"
    proof
      assume "i = 0"
      with ne0 show ?thesis by blast
    next
      assume "i = 2"
      with ne2 show ?thesis by blast
    qed
  qed
  note peak = weight_peak [OF hit decay, of 9]
  have "weight (assign_linear_weights three_frames 9 (3/10) ! middle_hit three_frames) = 1"
    by (rule peak[THEN conjunct2, THEN conjunct1])
  then have one: "weight (assign_linear_weights three_frames 9 (3/10) ! 1) = 1"
    unfolding three_frames_nums(1) .
  have "count_full_weight (assign_linear_weights three_frames 9 (3/10)) = 1"
    by (rule mp[OF peak[THEN conjunct2, THEN conjunct2, THEN conjunct2] others])
  with one show ?thesis
    by (rule conjI)
qed

text \<open>
  Claim C6 as stated fails: in \<^const>\<open>fallback_video\<close> one frame is marked, and two rows
  get weight exactly 1, the marked frame 1 and the file without a frame number at
  position 1.
\<close>

theorem weight_peak_counterexample:
  "hit_frames fallback_video = [0]
   \<and> map weight (assign_linear_weights fallback_video 9 (3/10)) = [1, 1, 2/5]
   \<and> count_full_weight (assign_linear_weights fallback_video 9 (3/10)) = 2"
proof -
  have h: "hit_frames fallback_video = [0]"
    by code_simp
  have n: "middle_hit fallback_video = 0" "frame_num fallback_video 0 = 1"
    "frame_num fallback_video 1 = 1" "frame_num fallback_video 2 = 3"
    by code_simp+
  have l: "length fallback_video = 3" "[0..<3] = [0, 1, 2]"
    by (simp_all add: fallback_video_def upt_rec)
  have n': "frame_num fallback_video (Suc 0) = 1"
    using n(3) by simp
  have w: "map weight (assign_linear_weights fallback_video 9 (3/10)) = [1, 1, 2/5]"
    by (simp add: assign_linear_weights_def h l n n' Let_def)
  have "count_full_weight (assign_linear_weights fallback_video 9 (3/10))
      = length (filter (\<lambda>x. x = 1) (map weight (assign_linear_weights fallback_video 9 (3/10))))"
    by (simp add: count_full_weight_def filter_map comp_def)
  then show ?thesis
    using h w by simp
qed

subsection \<open>Properties of the sequence window\<close>

lemma length_extract_sequence:
  "length (extract_sequence frames h n) = nat (2 * (n div 2) + 1)"
  by (simp add: extract_sequence_def Let_def)

lemma length_extract_sequence_odd:
  assumes "odd n" "0 < n"
  shows "int (length (extract_sequence frames h n)) = n"
proof -
  have "2 * (n div 2) + 1 = n"
    using assms(1) by presburger
  then show ?thesis
    using assms(2) by (simp add: length_extract_sequence)
qed

lemma clip_position:
  assumes "frames \<noteq> []"
  shows "nat (np_clip i 0 (int (length frames) - 1)) < length frames"
proof -
  have "0 < int (length frames)"
    using assms by simp
  then show ?thesis
    unfolding np_clip_def by linarith
qed

text \<open>
  Claim C2.  For an odd positive sequence length \<open>N\<close> and a hit position \<open>h\<close> of the frame
  list, the window has exactly \<open>N\<close> frames, its \<open>k\<close>-th frame is the frame at position
  \<open>clip (h - N div 2 + k) 0 (len - 1)\<close>, and the whole window is the list of the frames
  at the clipped positions \<open>h - N div 2, \<dots>, h + N div 2\<close>.  The check of the produced
  length in the loop over the videos therefore never skips a video.
\<close>

theorem extract_sequence_window:
  assumes "odd N" "0 < N" "0 \<le> h" "h < int (length video_frames)"
  shows "int (length (extract_sequence video_frames h N)) = N
     \<and> (\<forall>k < nat N.
           extract_sequence video_frames h N ! k
             = video_frames ! nat (np_clip (h - N div 2 + int k) 0 (int (length video_frames) - 1))
         \<and> nat (np_clip (h - N div 2 + int k) 0 (int (length video_frames) - 1))
             < length video_frames)
     \<and> extract_sequence video_frames h N
         = map (\<lambda>i. video_frames ! nat (np_clip i 0 (int (length video_frames) - 1)))
             [h - N div 2..h + N div 2]
     \<and> process_video landing_df_indexed N vid grp \<noteq> Skipped_short"
proof -
  have odd: "2 * (N div 2) + 1 = N"
    using assms(1) by presburger
  have ne: "video_frames \<noteq> []"
    using assms(3,4) by auto
  have len: "int (length (extract_sequence video_frames h N)) = N"
    by (rule length_extract_sequence_odd[OF assms(1,2)])
  have elems: "\<forall>k < nat N.
           extract_sequence video_frames h N ! k
             = video_frames ! nat (np_clip (h - N div 2 + int k) 0 (int (length video_frames) - 1))
         \<and> nat (np_clip (h - N div 2 + int k) 0 (int (length video_frames) - 1))
             < length video_frames"
  proof (intro allI impI conjI)
    fix k
    assume k: "k < nat N"
    then have in_range: "h - N div 2 + int k \<le> h + N div 2"
      using odd by linarith
    have "k < length [h - N div 2..h + N div 2]"
      using k odd by simp
    then show "extract_sequence video_frames h N ! k
        = video_frames ! nat (np_clip (h - N div 2 + int k) 0 (int (length video_frames) - 1))"
      using in_range by (simp add: extract_sequence_def Let_def)
    show "nat (np_clip (h - N div 2 + int k) 0 (int (length video_frames) - 1))
        < length video_frames"
      by (rule clip_position[OF ne])
  qed
  have whole: "extract_sequence video_frames h N
         = map (\<lambda>i. video_frames ! nat (np_clip i 0 (int (length video_frames) - 1)))
             [h - N div 2..h + N div 2]"
    by (simp add: extract_sequence_def Let_def)
  have short: "process_video landing_df_indexed N vid grp \<noteq> Skipped_short"
    by (simp add: process_video_def Let_def length_extract_sequence_odd[OF assms(1,2)]
          split: option.split)
  from len elems whole short show ?thesis
    by (intro conjI)
qed

text \<open>
  The scenario of the specification: twenty frames, the hit at position 18 and \<open>N = 9\<close>
  give the frames 14 to 19 with frame 19 repeated three more times.
\<close>

theorem extract_sequence_window_witness:
  "int (length (extract_sequence [0..19] 18 9)) = 9
   \<and> extract_sequence [0..19] 18 9 = [14, 15, 16, 17, 18, 19, 19, 19, 19]"
proof -
  have l: "length [0..19::int] = 20"
    by simp
  have h: "odd (9::int)" "(0::int) < 9" "(0::int) \<le> 18" "18 < int (length [0..19::int])"
    by (simp_all add: l)
  have u: "[14..22] = [14, 15, 16, 17, 18, 19, 20, 21, 22::int]"
    by (simp add: upto.simps)
  note w = extract_sequence_window [OF h, of "[]" "''v''" "[]"]
  have "extract_sequence [0..19] 18 9 = [14, 15, 16, 17, 18, 19, 19, 19, 19]"
    unfolding w[THEN conjunct2, THEN conjunct2, THEN conjunct1] l
    by (simp add: u np_clip_def)
  with w[THEN conjunct1] show ?thesis
    by (rule conjI)
qed

subsection \<open>Properties of the loop over the videos\<close>

lemma video_loop_fields:
  "sequences_for_dataset (video_loop landing n groups s)
     = sequences_for_dataset s
       @ successes (map (\<lambda>(vid, grp). process_video landing n vid grp) groups)"
  "skipped_no_hit (video_loop landing n groups s)
     = skipped_no_hit s
       + count_list (map (\<lambda>(vid, grp). process_video landing n vid grp) groups) Skipped_no_hit"
  "skipped_no_landing (video_loop landing n groups s)
     = skipped_no_landing s
       + count_list (map (\<lambda>(vid, grp). process_video landing n vid grp) groups) Skipped_no_landing"
  "skipped_parse (video_loop landing n groups s)
     = skipped_parse s
       + count_list (map (\<lambda>(vid, grp). process_video landing n vid grp) groups) Skipped_parse"
  "skipped_short (video_loop landing n groups s)
     = skipped_short s
       + count_list (map (\<lambda>(vid, grp). process_video landing n vid grp) groups) Skipped_short"
proof (induction groups arbitrary: s)
  case Nil
  {
    case 1 show ?case by simp
  next
    case 2 show ?case by simp
  next
    case 3 show ?case by simp
  next
    case 4 show ?case by simp
  next
    case 5 show ?case by simp
  }
next
  case (Cons g groups)
  obtain vid grp where g: "g = (vid, grp)"
    by (cases g)
  {
    case 1 show ?case
      unfolding g by (cases "process_video landing n vid grp") (simp_all add: Cons.IH(1) count_outcome_def)
  next
    case 2 show ?case
      unfolding g by (cases "process_video landing n vid grp") (simp_all add: Cons.IH(2) count_outcome_def)
  next
    case 3 show ?case
      unfolding g by (cases "process_video landing n vid grp") (simp_all add: Cons.IH(3) count_outcome_def)
  next
    case 4 show ?case
      unfolding g by (cases "process_video landing n vid grp") (simp_all add: Cons.IH(4) count_outcome_def)
  next
    case 5 show ?case
      unfolding g by (cases "process_video landing n vid grp") (simp_all add: Cons.IH(5) count_outcome_def)
  }
qed

lemma outcomes_partition:
  "length (successes rs) + count_list rs Skipped_no_hit + count_list rs Skipped_no_landing
     + count_list rs Skipped_parse + count_list rs Skipped_short = length rs"
proof (induction rs)
  case Nil
  then show ?case by simp
next
  case (Cons r rs)
  then show ?case by (cases r) simp_all
qed

lemma set_sort_by_frame_num:
  assumes "sort_by_frame_num grp = Some group_sorted"
  shows "set group_sorted \<subseteq> set grp"
proof -
  obtain nums :: "int list" where "group_sorted = map snd (sort_key fst (zip nums grp))"
  proof (cases "those (map (\<lambda>row. frame_num_int (frame_path row)) grp)")
    case None
    with assms show ?thesis
      by (simp add: sort_by_frame_num_def)
  next
    case (Some nums)
    with assms have "group_sorted = map snd (sort_key fst (zip nums grp))"
      by (simp add: sort_by_frame_num_def)
    then show ?thesis
      by (rule that)
  qed
  then have "set group_sorted = snd ` set (zip nums grp)"
    by simp
  then show ?thesis
    by (auto dest: set_zip_rightD)
qed

lemma no_hit_row_skipped:
  assumes "\<forall>row \<in> set grp. weight row \<noteq> 1"
  shows "process_video landing n vid grp = Skipped_no_hit
       \<or> process_video landing n vid grp = Skipped_parse"
proof (cases "sort_by_frame_num grp")
  case None
  then show ?thesis
    by (simp add: process_video_def)
next
  case (Some group_sorted)
  have "hit_rows group_sorted = []"
    using set_sort_by_frame_num[OF Some] assms
    by (auto simp: hit_rows_def filter_empty_conv)
  with Some show ?thesis
    by (simp add: process_video_def)
qed

lemma no_landing_skipped:
  assumes "map_of landing (basename vid) = None"
  shows "process_video landing n vid grp \<noteq> Success item"
  using assms by (simp add: process_video_def Let_def split: option.split)

lemma success_length:
  assumes "process_video landing n vid grp = Success item"
  shows "int (length (sequence_paths item)) = n"
  using assms
  by (auto simp: process_video_def Let_def split: option.splits if_splits)

text \<open>
  Claim C8, as the code has it.  When both input tables are non-empty, every video of the
  table is processed on its own and ends in exactly one of five outcomes; the returned
  list has the sequences of the successful videos, each of the four skip counters has the
  number of videos with that outcome, and the five counts add up to the number of
  videos.  A video without a row of weight 1 is skipped (as no-hit, or as parse when a
  file name has no frame number), a video whose shot identifier has no landing record is
  skipped, and a sequence in the result has the requested length.  When an input table is
  empty the function returns early, with no summary.
\<close>

theorem get_sequences_counts:
  "(cnn1_balanced_df \<noteq> [] \<and> landing_df_indexed \<noteq> [] \<longrightarrow>
      (\<exists>s. get_sequences cnn1_balanced_df landing_df_indexed n = Some s
         \<and> sequences_for_dataset s = successes (outcomes cnn1_balanced_df landing_df_indexed n)
         \<and> skipped_no_hit s
             = count_list (outcomes cnn1_balanced_df landing_df_indexed n) Skipped_no_hit
         \<and> skipped_no_landing s
             = count_list (outcomes cnn1_balanced_df landing_df_indexed n) Skipped_no_landing
         \<and> skipped_parse s
             = count_list (outcomes cnn1_balanced_df landing_df_indexed n) Skipped_parse
         \<and> skipped_short s
             = count_list (outcomes cnn1_balanced_df landing_df_indexed n) Skipped_short
         \<and> length (sequences_for_dataset s) + skipped_no_hit s + skipped_no_landing s
             + skipped_parse s + skipped_short s
             = length (groupby_video_id cnn1_balanced_df)))
   \<and> (cnn1_balanced_df = [] \<or> landing_df_indexed = [] \<longrightarrow>
        get_sequences cnn1_balanced_df landing_df_indexed n = None)
   \<and> ((\<forall>row \<in> set grp. weight row \<noteq> 1) \<longrightarrow>
        process_video landing_df_indexed n vid grp = Skipped_no_hit
        \<or> process_video landing_df_indexed n vid grp = Skipped_parse)
   \<and> (map_of landing_df_indexed (basename vid) = None \<longrightarrow>
        (\<forall>item. process_video landing_df_indexed n vid grp \<noteq> Success item))
   \<and> (\<forall>item. process_video landing_df_indexed n vid grp = Success item \<longrightarrow>
        int (length (sequence_paths item)) = n)"
proof (intro conjI impI allI)
  assume ne: "cnn1_balanced_df \<noteq> [] \<and> landing_df_indexed \<noteq> []"
  let ?rs = "outcomes cnn1_balanced_df landing_df_indexed n"
  let ?s = "video_loop landing_df_indexed n (groupby_video_id cnn1_balanced_df)
              \<lparr>sequences_for_dataset = [], skipped_no_hit = 0, skipped_no_landing = 0,
               skipped_parse = 0, skipped_short = 0\<rparr>"
  have g: "get_sequences cnn1_balanced_df landing_df_indexed n = Some ?s"
    using ne by (simp add: get_sequences_def)
  have f: "sequences_for_dataset ?s = successes ?rs"
    "skipped_no_hit ?s = count_list ?rs Skipped_no_hit"
    "skipped_no_landing ?s = count_list ?rs Skipped_no_landing"
    "skipped_parse ?s = count_list ?rs Skipped_parse"
    "skipped_short ?s = count_list ?rs Skipped_short"
    by (simp_all add: video_loop_fields outcomes_def)
  have "length (sequences_for_dataset ?s) + skipped_no_hit ?s + skipped_no_landing ?s
         + skipped_parse ?s + skipped_short ?s = length ?rs"
    unfolding f by (rule outcomes_partition)
  then have t: "length (sequences_for_dataset ?s) + skipped_no_hit ?s + skipped_no_landing ?s
         + skipped_parse ?s + skipped_short ?s = length (groupby_video_id cnn1_balanced_df)"
    by (simp add: outcomes_def)
  from g f t show "\<exists>s. get_sequences cnn1_balanced_df landing_df_indexed n = Some s
         \<and> sequences_for_dataset s = successes ?rs
         \<and> skipped_no_hit s = count_list ?rs Skipped_no_hit
         \<and> skipped_no_landing s = count_list ?rs Skipped_no_landing
         \<and> skipped_parse s = count_list ?rs Skipped_parse
         \<and> skipped_short s = count_list ?rs Skipped_short
         \<and> length (sequences_for_dataset s) + skipped_no_hit s + skipped_no_landing s
             + skipped_parse s + skipped_short s
             = length (groupby_video_id cnn1_balanced_df)"
    by blast
next
  assume "cnn1_balanced_df = [] \<or> landing_df_indexed = []"
  then show "get_sequences cnn1_balanced_df landing_df_indexed n = None"
    by (simp add: get_sequences_def)
next
  assume "\<forall>row \<in> set grp. weight row \<noteq> 1"
  then show "process_video landing_df_indexed n vid grp = Skipped_no_hit
        \<or> process_video landing_df_indexed n vid grp = Skipped_parse"
    by (rule no_hit_row_skipped)
next
  fix item
  assume "map_of landing_df_indexed (basename vid) = None"
  then show "process_video landing_df_indexed n vid grp \<noteq> Success item"
    by (rule no_landing_skipped)
next
  fix item
  assume "process_video landing_df_indexed n vid grp = Success item"
  then show "int (length (sequence_paths item)) = n"
    by (rule success_length)
qed

text \<open>
  A batch of two videos of which only \<open>IST07\<close> has a landing record: that video gives a
  sequence, the other one is counted as a no-landing skip.
\<close>

lemma two_video_batch_groups: "groupby_video_id two_video_batch =
   [(''Frames/ICT03'', [(meta_row ''Frames/ICT03/frame_0004.jpg'' 1)\<lparr>weight := 1\<rparr>,
      (meta_row ''Frames/ICT03/frame_0003.jpg'' 0)\<lparr>weight := 7/10\<rparr>]),
    (''Frames/IST07'', [(meta_row ''Frames/IST07/frame_0004.jpg'' 1)\<lparr>weight := 1\<rparr>,
      (meta_row ''Frames/IST07/frame_0003.jpg'' 0)\<lparr>weight := 7/10\<rparr>,
      (meta_row ''Frames/IST07/frame_0005.jpg'' 0)\<lparr>weight := 7/10\<rparr>])]"
  by (simp add: groupby_video_id_def two_video_batch_def meta_row_def dirname_def)

lemma two_video_batch_outcomes: "outcomes two_video_batch one_landing 3 =
  [Skipped_no_landing,
   Success \<lparr>sequence_paths = [''Frames/IST07/frame_0003.jpg'', ''Frames/IST07/frame_0004.jpg'',
       ''Frames/IST07/frame_0005.jpg''], target_coords = (1/4, 3/4),
       item_video_id = ''Frames/IST07'', shot_id = ''IST07''\<rparr>]"
  unfolding outcomes_def two_video_batch_groups
  by (simp add: process_video_def sort_by_frame_num_def frame_num_int_def basename_def
       is_digit_def int_of_digits_def meta_row_def hit_rows_def hit_row_def list_index_def
       one_landing_def extract_sequence_def np_clip_def Let_def upto.simps)

theorem get_sequences_counts_witness:
  "\<exists>s. get_sequences two_video_batch one_landing 3 = Some s
     \<and> map shot_id (sequences_for_dataset s) = [''IST07'']
     \<and> skipped_no_hit s = 0 \<and> skipped_no_landing s = 1
     \<and> skipped_parse s = 0 \<and> skipped_short s = 0"
proof -
  have ne: "two_video_batch \<noteq> [] \<and> one_landing \<noteq> []"
    by (simp add: two_video_batch_def one_landing_def)
  note c = get_sequences_counts [where cnn1_balanced_df = two_video_batch
      and landing_df_indexed = one_landing and n = 3, THEN conjunct1, THEN mp, OF ne]
  then obtain s where "get_sequences two_video_batch one_landing 3 = Some s"
    and "sequences_for_dataset s = successes (outcomes two_video_batch one_landing 3)"
    and "skipped_no_hit s = count_list (outcomes two_video_batch one_landing 3) Skipped_no_hit"
    and "skipped_no_landing s
           = count_list (outcomes two_video_batch one_landing 3) Skipped_no_landing"
    and "skipped_parse s = count_list (outcomes two_video_batch one_landing 3) Skipped_parse"
    and "skipped_short s = count_list (outcomes two_video_batch one_landing 3) Skipped_short"
    by blast
  then show ?thesis
    unfolding two_video_batch_outcomes by simp
qed

text \<open>
  Claim C8 as stated fails when the landing table is empty: the one video of
  \<^const>\<open>two_full_weights\<close> has no landing record, and the function returns early,
  without a summary and so without a count for the dropped video.
\<close>

theorem get_sequences_counts_counterexample:
  "two_full_weights \<noteq> []
   \<and> map_of ([] :: (string \<times> real \<times> real) list) (basename ''Frames/ICT03'') = None
   \<and> get_sequences two_full_weights [] 9 = None"
  by (simp add: two_full_weights_def get_sequences_def)

subsection \<open>Properties of the hit-frame selection\<close>

lemma py_max_first:
  "\<exists>before after. maxitem # items = before @ py_max key maxitem items # after
     \<and> (\<forall>q \<in> set before. key q < key (py_max key maxitem items))
     \<and> (\<forall>q \<in> set after. key q \<le> key (py_max key maxitem items))"
proof (induction items arbitrary: maxitem)
  case Nil
  have "[maxitem] = [] @ maxitem # []"
    by simp
  then have "\<exists>before after. [maxitem] = before @ maxitem # after
      \<and> (\<forall>q \<in> set before. key q < key maxitem) \<and> (\<forall>q \<in> set after. key q \<le> key maxitem)"
    by (metis empty_iff list.set(1))
  then show ?case by simp
next
  case (Cons item rest)
  show ?case
  proof (cases "key item > key maxitem")
    case True
    let ?r = "py_max key item rest"
    from Cons.IH[of item] obtain before after where
      s: "item # rest = before @ ?r # after"
      and b: "\<forall>q \<in> set before. key q < key ?r"
      and a: "\<forall>q \<in> set after. key q \<le> key ?r"
      by blast
    have "item \<in> set (before @ [?r])"
      using s by (cases before) auto
    then have "key item \<le> key ?r"
      using b by auto
    with True have m: "key maxitem < key ?r"
      by simp
    have "maxitem # item # rest = (maxitem # before) @ ?r # after"
      using s by simp
    moreover have "\<forall>q \<in> set (maxitem # before). key q < key ?r"
      using b m by simp
    ultimately have "\<exists>before after. maxitem # item # rest = before @ ?r # after
        \<and> (\<forall>q \<in> set before. key q < key ?r) \<and> (\<forall>q \<in> set after. key q \<le> key ?r)"
      using a by blast
    with True show ?thesis by simp
  next
    case False
    let ?r = "py_max key maxitem rest"
    from Cons.IH[of maxitem] obtain before after where
      s: "maxitem # rest = before @ ?r # after"
      and b: "\<forall>q \<in> set before. key q < key ?r"
      and a: "\<forall>q \<in> set after. key q \<le> key ?r"
      by blast
    have "\<exists>before after. maxitem # item # rest = before @ ?r # after
        \<and> (\<forall>q \<in> set before. key q < key ?r) \<and> (\<forall>q \<in> set after. key q \<le> key ?r)"
    proof (cases before)
      case Nil
      with s have r: "?r = maxitem" and rest: "rest = after"
        by (metis append_Nil list.inject)+
      have "maxitem # item # rest = [] @ ?r # (item # after)"
        using r rest by simp
      moreover have "\<forall>q \<in> set (item # after). key q \<le> key ?r"
        using a False r by auto
      ultimately show ?thesis
        by (metis empty_iff list.set(1))
    next
      case (Cons x xs)
      with s have x: "x = maxitem" and rest: "rest = xs @ ?r # after"
        by (metis append_Cons list.inject)+
      have "key maxitem < key ?r"
        using b Cons x by simp
      with False have "key item < key ?r"
        by simp
      then have "\<forall>q \<in> set (maxitem # item # xs). key q < key ?r"
        using b Cons x by simp
      moreover have "maxitem # item # rest = (maxitem # item # xs) @ ?r # after"
        using rest by simp
      ultimately show ?thesis
        using a by blast
    qed
    with False show ?thesis by simp
  qed
qed

lemma predictions_in_file_order:
  "map pred_path (predictions_cnn1 cnn1_score sorted_frame_paths)
     = filter (\<lambda>p. cnn1_score p \<noteq> None) sorted_frame_paths"
  by (induction sorted_frame_paths) (auto simp: predictions_cnn1_def)

text \<open>
  Claim C9.  The predictions are those of the frames that could be scored, in the sorted
  file order.  The selection returns nothing exactly when there is no prediction;
  otherwise it returns a prediction of maximal score, and the first such one: every
  prediction before it in file order has a strictly smaller score, every prediction after
  it a score that is not greater.
\<close>

theorem best_hit_first_maximum:
  "map pred_path (predictions_cnn1 cnn1_score sorted_frame_paths)
     = filter (\<lambda>p. cnn1_score p \<noteq> None) sorted_frame_paths
   \<and> (best_hit cnn1_score sorted_frame_paths = None
        \<longleftrightarrow> predictions_cnn1 cnn1_score sorted_frame_paths = [])
   \<and> (\<forall>best. best_hit cnn1_score sorted_frame_paths = Some best \<longrightarrow>
        (\<exists>before after.
           predictions_cnn1 cnn1_score sorted_frame_paths = before @ best # after
           \<and> (\<forall>q \<in> set before. pred_score q < pred_score best)
           \<and> (\<forall>q \<in> set after. pred_score q \<le> pred_score best)))"
proof (intro conjI allI impI)
  show "map pred_path (predictions_cnn1 cnn1_score sorted_frame_paths)
     = filter (\<lambda>p. cnn1_score p \<noteq> None) sorted_frame_paths"
    by (rule predictions_in_file_order)
next
  show "best_hit cnn1_score sorted_frame_paths = None
        \<longleftrightarrow> predictions_cnn1 cnn1_score sorted_frame_paths = []"
    by (simp add: best_hit_def split: list.split)
next
  fix best
  assume "best_hit cnn1_score sorted_frame_paths = Some best"
  then obtain first rest where
    p: "predictions_cnn1 cnn1_score sorted_frame_paths = first # rest"
    and best: "best = py_max pred_score first rest"
    by (auto simp: best_hit_def split: list.splits)
  show "\<exists>before after.
           predictions_cnn1 cnn1_score sorted_frame_paths = before @ best # after
           \<and> (\<forall>q \<in> set before. pred_score q < pred_score best)
           \<and> (\<forall>q \<in> set after. pred_score q \<le> pred_score best)"
    unfolding p best by (rule py_max_first)
qed

text \<open>
  With the third and the fourth of \<^const>\<open>four_paths\<close> tied for the highest score, the
  third one is selected.
\<close>

lemma four_predictions:
  "predictions_cnn1 four_scores four_paths =
     [\<lparr>pred_path = ''ICT09/frame_0001.jpg'', pred_score = 1/5\<rparr>,
      \<lparr>pred_path = ''ICT09/frame_0003.jpg'', pred_score = 9/10\<rparr>,
      \<lparr>pred_path = ''ICT09/frame_0004.jpg'', pred_score = 9/10\<rparr>]"
  by (simp add: predictions_cnn1_def four_paths_def four_scores_def)

theorem best_hit_first_maximum_witness:
  "best_hit four_scores four_paths
     = Some \<lparr>pred_path = ''ICT09/frame_0003.jpg'', pred_score = 9/10\<rparr>
   \<and> (\<exists>before after.
         predictions_cnn1 four_scores four_paths
           = before @ \<lparr>pred_path = ''ICT09/frame_0003.jpg'', pred_score = 9/10\<rparr> # after
         \<and> (\<forall>q \<in> set before. pred_score q < 9/10)
         \<and> (\<forall>q \<in> set after. pred_score q \<le> 9/10))"
proof -
  have b: "best_hit four_scores four_paths
      = Some \<lparr>pred_path = ''ICT09/frame_0003.jpg'', pred_score = 9/10\<rparr>"
    by (simp add: best_hit_def four_predictions)
  from best_hit_first_maximum [of four_scores four_paths, THEN conjunct2, THEN conjunct2,
      THEN spec, THEN mp, OF b]
  have "\<exists>before after.
         predictions_cnn1 four_scores four_paths
           = before @ \<lparr>pred_path = ''ICT09/frame_0003.jpg'', pred_score = 9/10\<rparr> # after
         \<and> (\<forall>q \<in> set before. pred_score q < 9/10)
         \<and> (\<forall>q \<in> set after. pred_score q \<le> 9/10)"
    by simp
  with b show ?thesis
    by (rule conjI)
qed

subsection \<open>Properties of the datasets\<close>

lemma frame_loop_later:
  "0 < i \<Longrightarrow> frame_loop load_frame self i ps (ts, g)
     = (ts @ map (frame_or_black load_frame self) (enumerate i ps), g)"
proof (induction ps arbitrary: i ts)
  case Nil
  then show ?case by simp
next
  case (Cons p ps)
  have "frame_loop load_frame self i (p # ps) (ts, g)
      = frame_loop load_frame self (Suc i) ps (ts @ [frame_or_black load_frame self (i, p)], g)"
    using Cons.prems by (auto simp: frame_or_black_def split: option.split)
  also have "\<dots> = ((ts @ [frame_or_black load_frame self (i, p)])
      @ map (frame_or_black load_frame self) (enumerate (Suc i) ps), g)"
    by (rule Cons.IH) simp
  finally show ?case by simp
qed

lemma frame_loop_all:
  "frame_loop load_frame self 0 ps ([], False)
     = (map (frame_or_black load_frame self) (enumerate 0 ps),
        first_frame_flip load_frame self ps)"
proof (cases ps)
  case Nil
  then show ?thesis by (simp add: first_frame_flip_def)
next
  case (Cons p ps')
  have "frame_loop load_frame self 0 (p # ps') ([], False)
      = frame_loop load_frame self (Suc 0) ps'
          ([frame_or_black load_frame self (0, p)], first_frame_flip load_frame self (p # ps'))"
    by (auto simp: frame_or_black_def first_frame_flip_def split: option.split)
  also have "\<dots> = ([frame_or_black load_frame self (0, p)]
      @ map (frame_or_black load_frame self) (enumerate (Suc 0) ps'),
      first_frame_flip load_frame self (p # ps'))"
    by (rule frame_loop_later) simp
  finally show ?thesis
    unfolding Cons by simp
qed

text \<open>
  Claim C10.  When the image of an index cannot be loaded, the single-frame dataset returns
  the zero image with target 0, whatever target is stored for that index.  The sequence
  dataset, for a sequence of the requested positive length, returns the stacked frames with a zero
  image in place of each frame that failed, and the stored landing target: mirrored in
  \<open>x\<close> only when the augmentation flipped the first frame, and unchanged when
  augmentation is off.
\<close>

theorem failed_image_targets:
  "(py_getitem (paths ds1) idx1 = Inr img_path \<and> py_getitem (targets ds1) idx1 = Inr target
      \<and> load_image (augment ds1) img_path = None \<longrightarrow>
      tennis_getitem load_image ds1 idx1 = Inr (zeros 3 (img_height ds1) (img_width ds1), 0))
   \<and> (py_getitem (sequence_data ds2) idx2 = Inr item
      \<and> length (sequence_paths item) = n_frames_sequence ds2
      \<and> 0 < n_frames_sequence ds2 \<longrightarrow>
      ball_getitem load_frame ds2 idx2
        = Inr (concat (map (frame_or_black load_frame ds2) (enumerate 0 (sequence_paths item))),
               if first_frame_flip load_frame ds2 (sequence_paths item)
               then (1 - fst (target_coords item), snd (target_coords item))
               else target_coords item)
      \<and> (\<not> augment ds2 \<longrightarrow>
           ball_getitem load_frame ds2 idx2
             = Inr (concat (map (frame_or_black load_frame ds2)
                      (enumerate 0 (sequence_paths item))),
                    target_coords item)))
   \<and> (load_frame (augment ds2) i p = None \<longrightarrow>
        frame_or_black load_frame ds2 (i, p) = zeros 3 (img_height ds2) (img_width ds2))"
proof (intro conjI impI)
  assume "py_getitem (paths ds1) idx1 = Inr img_path \<and> py_getitem (targets ds1) idx1 = Inr target
      \<and> load_image (augment ds1) img_path = None"
  then show "tennis_getitem load_image ds1 idx1
      = Inr (zeros 3 (img_height ds1) (img_width ds1), 0)"
    by (simp add: tennis_getitem_def)
next
  assume a: "py_getitem (sequence_data ds2) idx2 = Inr item
      \<and> length (sequence_paths item) = n_frames_sequence ds2
      \<and> 0 < n_frames_sequence ds2"
  then have "sequence_paths item \<noteq> []"
    by auto
  then have "enumerate 0 (sequence_paths item) \<noteq> []"
    by (cases "sequence_paths item") simp_all
  with a show g: "ball_getitem load_frame ds2 idx2
        = Inr (concat (map (frame_or_black load_frame ds2) (enumerate 0 (sequence_paths item))),
               if first_frame_flip load_frame ds2 (sequence_paths item)
               then (1 - fst (target_coords item), snd (target_coords item))
               else target_coords item)"
    by (simp add: ball_getitem_def frame_loop_all Let_def)
  assume "\<not> augment ds2"
  then have "\<not> first_frame_flip load_frame ds2 (sequence_paths item)"
    by (simp add: first_frame_flip_def split: list.split option.split)
  with g show "ball_getitem load_frame ds2 idx2
             = Inr (concat (map (frame_or_black load_frame ds2)
                      (enumerate 0 (sequence_paths item))),
                    target_coords item)"
    by simp
next
  assume "load_frame (augment ds2) i p = None"
  then show "frame_or_black load_frame ds2 (i, p) = zeros 3 (img_height ds2) (img_width ds2)"
    by (simp add: frame_or_black_def)
qed

text \<open>
  The frame of \<^const>\<open>one_frame_dataset\<close> has target weight 1 and cannot be read: the item
  is the zero image with target 0.  The second frame of the sequence of
  \<^const>\<open>one_sequence_dataset\<close> cannot be read: the item has that frame black and the
  stored target.
\<close>

theorem failed_image_targets_witness:
  "py_getitem (targets one_frame_dataset) 0 = Inr 1
   \<and> tennis_getitem unreadable one_frame_dataset 0 = Inr (zeros 3 1 1, 0)
   \<and> ball_getitem second_unreadable one_sequence_dataset 0
       = Inr (grey @ zeros 3 1 1 @ grey, (1/4, 3/4))"
proof -
  have t: "py_getitem (paths one_frame_dataset) 0 = Inr ''Frames/IST07/frame_0004.jpg''
      \<and> py_getitem (targets one_frame_dataset) 0 = Inr 1
      \<and> unreadable (augment one_frame_dataset) ''Frames/IST07/frame_0004.jpg'' = None"
    by (simp add: py_getitem_def one_frame_dataset_def unreadable_def)
  have b: "py_getitem (sequence_data one_sequence_dataset) 0
        = Inr (hd (sequence_data one_sequence_dataset))
      \<and> length (sequence_paths (hd (sequence_data one_sequence_dataset)))
        = n_frames_sequence one_sequence_dataset
      \<and> 0 < n_frames_sequence one_sequence_dataset"
    by (simp add: py_getitem_def one_sequence_dataset_def)
  have na: "\<not> augment one_sequence_dataset"
    by (simp add: one_sequence_dataset_def)
  note c = failed_image_targets [where ?ds1.0 = one_frame_dataset and ?idx1.0 = 0
      and load_image = unreadable and ?ds2.0 = one_sequence_dataset and ?idx2.0 = 0
      and load_frame = second_unreadable and img_path = "''Frames/IST07/frame_0004.jpg''"
      and target = 1 and item = "hd (sequence_data one_sequence_dataset)"]
  have "tennis_getitem unreadable one_frame_dataset 0
      = Inr (zeros 3 (img_height one_frame_dataset) (img_width one_frame_dataset), 0)"
    by (rule c[THEN conjunct1, THEN mp, OF t])
  then have one: "tennis_getitem unreadable one_frame_dataset 0 = Inr (zeros 3 1 1, 0)"
    by (simp add: one_frame_dataset_def)
  have "ball_getitem second_unreadable one_sequence_dataset 0
      = Inr (concat (map (frame_or_black second_unreadable one_sequence_dataset)
               (enumerate 0 (sequence_paths (hd (sequence_data one_sequence_dataset))))),
             target_coords (hd (sequence_data one_sequence_dataset)))"
    by (rule c[THEN conjunct2, THEN conjunct1, THEN mp, OF b, THEN conjunct2, THEN mp, OF na])
  then have two: "ball_getitem second_unreadable one_sequence_dataset 0
       = Inr (grey @ zeros 3 1 1 @ grey, (1/4, 3/4))"
    by (simp add: one_sequence_dataset_def frame_or_black_def second_unreadable_def)
  from t one two show ?thesis
    by blast
qed

subsection \<open>Properties of the balancing\<close>

lemma shuffle_loop_mset:
  "i < length x \<Longrightarrow> mset (shuffle_loop random_interval i x) = mset x"
proof (induction i arbitrary: x)
  case 0
  show ?case by simp
next
  case (Suc i)
  let ?j = "random_interval (Suc i) mod Suc (Suc i)"
  let ?y = "x[Suc i := x ! ?j, ?j := x ! Suc i]"
  have j: "?j < length x"
  proof -
    have "?j < Suc (Suc i)"
      by simp
    with Suc.prems show ?thesis
      by linarith
  qed
  have "mset ?y = mset x"
    using j Suc.prems by (rule mset_swap)
  moreover have "i < length ?y"
    using Suc.prems by simp
  ultimately have "mset (shuffle_loop random_interval i ?y) = mset x"
    using Suc.IH[of ?y] by simp
  then show ?case
    by (simp add: Let_def)
qed

lemma permutation_mset: "mset (permutation random_interval m) = mset [0..<m]"
proof (cases m)
  case 0
  then show ?thesis by (simp add: permutation_def)
next
  case (Suc k)
  then show ?thesis
    unfolding permutation_def by (intro shuffle_loop_mset) simp
qed

lemma permutation_props:
  "length (permutation random_interval m) = m"
  "distinct (permutation random_interval m)"
  "set (permutation random_interval m) = {0..<m}"
proof -
  note p = permutation_mset[of random_interval m]
  show "length (permutation random_interval m) = m"
    using mset_eq_length[OF p] by simp
  show "distinct (permutation random_interval m)"
    using mset_eq_imp_distinct_iff[OF p] by simp
  show "set (permutation random_interval m) = {0..<m}"
    using mset_eq_setD[OF p] by simp
qed

lemma sample_positions_props:
  assumes "n \<le> m"
  shows "length (sample_positions rng m n) = n"
    and "distinct (sample_positions rng m n)"
    and "\<forall>k \<in> set (sample_positions rng m n). k < m"
proof -
  show "length (sample_positions rng m n) = n"
    using assms by (simp add: sample_positions_def permutation_props(1))
  show "distinct (sample_positions rng m n)"
    by (simp add: sample_positions_def permutation_props(2))
  have "set (sample_positions rng m n) \<subseteq> {0..<m}"
    unfolding sample_positions_def using set_take_subset permutation_props(3) by metis
  then show "\<forall>k \<in> set (sample_positions rng m n). k < m"
    by auto
qed

lemma sample_all_mset: "mset (map (\<lambda>k. xs ! k) (sample_positions rng (length xs) (length xs))) = mset xs"
proof -
  have "sample_positions rng (length xs) (length xs) = permutation (rng (length xs)) (length xs)"
    by (simp add: sample_positions_def permutation_props(1))
  then have "mset (map (\<lambda>k. xs ! k) (sample_positions rng (length xs) (length xs)))
      = image_mset (\<lambda>k. xs ! k) (mset [0..<length xs])"
    by (simp add: permutation_mset)
  also have "\<dots> = mset (map (\<lambda>k. xs ! k) [0..<length xs])"
    by simp
  also have "\<dots> = mset xs"
    by (simp add: map_nth)
  finally show ?thesis .
qed

lemma sample_size_le:
  assumes "sample_size df balance_ratio = Inr n"
  shows "n \<le> int (length (non_hit_frames df))"
  using assms by (auto simp: sample_size_def split: sum.splits)

lemma bit_length_bound: "0 \<le> n \<Longrightarrow> n < 2 ^ k \<Longrightarrow> bit_length n \<le> int k"
proof (induction k arbitrary: n)
  case 0
  then have "n = 0" by simp
  then show ?case by (simp add: bit_length.simps)
next
  case (Suc k)
  show ?case
  proof (cases "n \<le> 0")
    case True
    then show ?thesis by (simp add: bit_length.simps)
  next
    case False
    have "n div 2 < 2 ^ k" "0 \<le> n div 2"
      using Suc.prems by auto
    then have "bit_length (n div 2) \<le> int k"
      using Suc.IH by blast
    with False show ?thesis
      by (subst bit_length.simps) simp
  qed
qed

lemma float_of_small_int:
  assumes "0 \<le> c" "c < 2 ^ 53"
  shows "round_binary64 c 0 = Finite c 0"
proof -
  have "bit_length \<bar>c\<bar> \<le> 53"
    using bit_length_bound[of c 53] assms by simp
  then show ?thesis
    by (simp add: round_binary64_def Let_def max_def)
qed

text \<open>
  Claim C7, as the code has it.  When line 399 raises no exception, balancing samples
  \<open>n = min |negatives| (int (balance_ratio * |positives|))\<close> rows of weight 0, and none
  when \<open>n\<close> is not positive: the product is Python's, exact for an int ratio and the
  binary64 product for a float ratio, and \<^verbatim>\<open>int\<close> truncates it toward zero.  The
  sampled rows are rows at \<open>n\<close> different positions of the negatives, whatever the seeded
  generator draws, and the balanced table has the positives and the sampled rows, each
  once.
\<close>

theorem balance_sample_count:
  "(sample_size df balance_ratio = Inr n \<longrightarrow>
      length (sampled_non_hit rng df n) = nat n
      \<and> n \<le> int (length (non_hit_frames df))
      \<and> (\<exists>positions. sampled_non_hit rng df n = map (\<lambda>k. non_hit_frames df ! k) positions
            \<and> distinct positions
            \<and> (\<forall>k \<in> set positions. k < length (non_hit_frames df)))
      \<and> (\<forall>row \<in> set (sampled_non_hit rng df n). weight row = 0)
      \<and> (\<exists>balanced. balanced_df rng df balance_ratio = Inr balanced
            \<and> mset balanced = mset (hit_frames_weighted df) + mset (sampled_non_hit rng df n)
            \<and> length balanced = length (hit_frames_weighted df) + nat n))
   \<and> (\<forall>row \<in> set (hit_frames_weighted df). weight row > 0)
   \<and> sample_size df (PyInt r)
       = Inr (min (int (length (non_hit_frames df))) (r * int (length (hit_frames_weighted df))))
   \<and> (int (length (hit_frames_weighted df)) < 2 ^ 53 \<longrightarrow>
       sample_size df (PyFloat (Finite m e))
         = (case py_int (PyFloat (round_binary64 (m * int (length (hit_frames_weighted df))) e)) of
              Inl err \<Rightarrow> Inl err
            | Inr target \<Rightarrow> Inr (min (int (length (non_hit_frames df))) target)))"
proof (intro conjI impI)
  assume s: "sample_size df balance_ratio = Inr n"
  let ?neg = "non_hit_frames df"
  have le: "n \<le> int (length ?neg)"
    by (rule sample_size_le[OF s])
  then show "n \<le> int (length ?neg)" .
  have pos_props: "length (sample_positions rng (length ?neg) (nat n)) = nat n
      \<and> distinct (sample_positions rng (length ?neg) (nat n))
      \<and> (\<forall>k \<in> set (sample_positions rng (length ?neg) (nat n)). k < length ?neg)"
    using sample_positions_props[of "nat n" "length ?neg" rng] le by simp
  show len: "length (sampled_non_hit rng df n) = nat n"
    using pos_props by (simp add: sampled_non_hit_def)
  show ex: "\<exists>positions. sampled_non_hit rng df n = map (\<lambda>k. ?neg ! k) positions
            \<and> distinct positions \<and> (\<forall>k \<in> set positions. k < length ?neg)"
  proof (cases "n > 0")
    case True
    then have "sampled_non_hit rng df n
        = map (\<lambda>k. ?neg ! k) (sample_positions rng (length ?neg) (nat n))"
      by (simp add: sampled_non_hit_def)
    with pos_props show ?thesis by blast
  next
    case False
    then have "sampled_non_hit rng df n = map (\<lambda>k. ?neg ! k) []"
      by (simp add: sampled_non_hit_def)
    moreover have "distinct ([] :: nat list) \<and> (\<forall>k \<in> set ([] :: nat list). k < length ?neg)"
      by simp
    ultimately show ?thesis by blast
  qed
  show "\<forall>row \<in> set (sampled_non_hit rng df n). weight row = 0"
  proof
    fix row
    assume row: "row \<in> set (sampled_non_hit rng df n)"
    from ex obtain positions where p: "sampled_non_hit rng df n = map (\<lambda>k. ?neg ! k) positions"
      and r: "\<forall>k \<in> set positions. k < length ?neg"
      by blast
    from row p obtain k where "k \<in> set positions" and "row = ?neg ! k"
      by auto
    with r have "row \<in> set ?neg"
      by simp
    then show "weight row = 0"
      by (simp add: non_hit_frames_def)
  qed
  let ?both = "hit_frames_weighted df @ sampled_non_hit rng df n"
  let ?balanced = "map (\<lambda>k. ?both ! k) (sample_positions rng (length ?both) (length ?both))"
  have b: "balanced_df rng df balance_ratio = Inr ?balanced"
    using s by (simp add: balanced_df_def Let_def)
  have m: "mset ?balanced = mset (hit_frames_weighted df) + mset (sampled_non_hit rng df n)"
    using sample_all_mset[of ?both rng] by simp
  have "length ?balanced = length ?both"
    using mset_eq_length[OF sample_all_mset[of ?both rng]] .
  then have l: "length ?balanced = length (hit_frames_weighted df) + nat n"
    using len by simp
  from b m l show "\<exists>balanced. balanced_df rng df balance_ratio = Inr balanced
            \<and> mset balanced = mset (hit_frames_weighted df) + mset (sampled_non_hit rng df n)
            \<and> length balanced = length (hit_frames_weighted df) + nat n"
    by blast
next
  show "\<forall>row \<in> set (hit_frames_weighted df). weight row > 0"
    by (simp add: hit_frames_weighted_def)
next
  show "sample_size df (PyInt r)
       = Inr (min (int (length (non_hit_frames df))) (r * int (length (hit_frames_weighted df))))"
    by (simp add: sample_size_def)
next
  assume "int (length (hit_frames_weighted df)) < 2 ^ 53"
  then have "round_binary64 (int (length (hit_frames_weighted df))) 0
      = Finite (int (length (hit_frames_weighted df))) 0"
    by (intro float_of_small_int) simp_all
  then show "sample_size df (PyFloat (Finite m e))
         = (case py_int (PyFloat (round_binary64 (m * int (length (hit_frames_weighted df))) e)) of
              Inl err \<Rightarrow> Inl err
            | Inr target \<Rightarrow> Inr (min (int (length (non_hit_frames df))) target))"
    by (simp add: sample_size_def)
qed
text \<open>
  The scenario of the specification: 10 positives, balance ratio 4 and 100 negatives give
  40 sampled negatives and a balanced table of 50 rows.  With float ratios the product is
  rounded before it is truncated: \<^verbatim>\<open>int(0.7 * 10)\<close> is 7 and \<^verbatim>\<open>int(1.16 * 25)\<close> is 28.
\<close>

lemma balancing_example_counts:
  "length (hit_frames_weighted ten_positive_hundred_negative) = 10"
  "length (non_hit_frames ten_positive_hundred_negative) = 100"
  "length (hit_frames_weighted ten_positive_thirty_negative) = 10"
  "length (non_hit_frames ten_positive_thirty_negative) = 30"
  "length (hit_frames_weighted twentyfive_positive_thirty_negative) = 25"
  "length (non_hit_frames twentyfive_positive_thirty_negative) = 30"
  "length (hit_frames_weighted one_positive_two_negative) = 1"
  "length (non_hit_frames one_positive_two_negative) = 2"
  by (simp_all add: hit_frames_weighted_def non_hit_frames_def ten_positive_hundred_negative_def
        ten_positive_thirty_negative_def twentyfive_positive_thirty_negative_def
        one_positive_two_negative_def weighted_row_def)

lemma rounded_products:
  "py_int (PyFloat (round_binary64 31525197391593470 (- 52))) = Inr 7"
  "py_int (PyFloat (round_binary64 130604389193744375 (- 52))) = Inr 28"
  "py_int (PyFloat (round_binary64 7 (- 2))) = Inr 1"
  by code_simp+

theorem balance_sample_count_witness:
  "sample_size ten_positive_hundred_negative (PyInt 4) = Inr 40
   \<and> length (sampled_non_hit zero_draws ten_positive_hundred_negative 40) = 40
   \<and> (\<exists>balanced. balanced_df zero_draws ten_positive_hundred_negative (PyInt 4) = Inr balanced
         \<and> length balanced = 50)
   \<and> sample_size ten_positive_thirty_negative float_0_7 = Inr 7
   \<and> sample_size twentyfive_positive_thirty_negative float_1_16 = Inr 28"
proof -
  note t = balance_sample_count [where df = ten_positive_hundred_negative
      and balance_ratio = "PyInt 4" and n = 40 and rng = zero_draws and r = 4]
  have s: "sample_size ten_positive_hundred_negative (PyInt 4) = Inr 40"
    using t[THEN conjunct2, THEN conjunct2, THEN conjunct1]
    by (simp add: balancing_example_counts)
  note c = t[THEN conjunct1, THEN mp, OF s]
  have l: "length (sampled_non_hit zero_draws ten_positive_hundred_negative 40) = 40"
    using c[THEN conjunct1] by simp
  have b: "\<exists>balanced. balanced_df zero_draws ten_positive_hundred_negative (PyInt 4) = Inr balanced
         \<and> length balanced = 50"
  proof -
    from c[THEN conjunct2, THEN conjunct2, THEN conjunct2, THEN conjunct2]
    obtain balanced where
      "balanced_df zero_draws ten_positive_hundred_negative (PyInt 4) = Inr balanced"
      and "length balanced = length (hit_frames_weighted ten_positive_hundred_negative) + nat 40"
      by blast
    then show ?thesis
      by (simp add: balancing_example_counts)
  qed
  have small: "int (length (hit_frames_weighted ten_positive_thirty_negative)) < 2 ^ 53"
    "int (length (hit_frames_weighted twentyfive_positive_thirty_negative)) < 2 ^ 53"
    by (simp_all add: balancing_example_counts)
  have f1: "sample_size ten_positive_thirty_negative float_0_7 = Inr 7"
    unfolding float_0_7_def
    using balance_sample_count [where df = ten_positive_thirty_negative
        and m = 3152519739159347 and e = "- 52", THEN conjunct2, THEN conjunct2,
        THEN conjunct2, THEN mp, OF small(1)]
    by (simp add: balancing_example_counts rounded_products)
  have f2: "sample_size twentyfive_positive_thirty_negative float_1_16 = Inr 28"
    unfolding float_1_16_def
    using balance_sample_count [where df = twentyfive_positive_thirty_negative
        and m = 5224175567749775 and e = "- 52", THEN conjunct2, THEN conjunct2,
        THEN conjunct2, THEN mp, OF small(2)]
    by (simp add: balancing_example_counts rounded_products)
  from s l b f1 f2 show ?thesis
    by (intro conjI)
qed

text \<open>
  Claim C7 as stated fails for a fractional product: with one positive, two negatives and
  the balance ratio 1.75 the code samples \<open>int 1.75 = 1\<close> row, where rounding gives 2.
\<close>

theorem balance_sample_count_counterexample:
  "sample_size one_positive_two_negative float_1_75 = Inr 1
   \<and> length (sampled_non_hit zero_draws one_positive_two_negative 1) = 1
   \<and> min (int (length (non_hit_frames one_positive_two_negative)))
          (round (7/4 * real (length (hit_frames_weighted one_positive_two_negative)))) = 2"
proof -
  have c: "round_binary64 1 0 = Finite 1 0"
    by code_simp
  have s: "sample_size one_positive_two_negative float_1_75 = Inr 1"
    using rounded_products(3)
    by (simp add: sample_size_def float_1_75_def balancing_example_counts c)
  have p: "sample_positions zero_draws 2 (Suc 0) = [1]"
    by code_simp
  have l: "length (sampled_non_hit zero_draws one_positive_two_negative 1) = 1"
    by (simp add: sampled_non_hit_def balancing_example_counts p)
  have f: "round (7/4 :: real) = 2"
    by (simp add: round_def)
  from s l f show ?thesis
    by (simp add: balancing_example_counts)
qed

subsection \<open>The chosen hit frame\<close>

lemma middle_split:
  assumes "xs \<noteq> []"
  shows "\<exists>before after. xs = before @ xs ! (length xs div 2) # after
     \<and> length before = length after + (if even (length xs) then 1 else 0)"
proof -
  let ?k = "length xs div 2"
  have k: "?k < length xs"
    using assms by simp
  have s: "xs = take ?k xs @ xs ! ?k # drop (Suc ?k) xs"
    by (rule id_take_nth_drop[OF k])
  have "0 < length xs"
    using assms by simp
  then have "length (take ?k xs)
      = length (drop (Suc ?k) xs) + (if even (length xs) then 1 else 0)"
    by (simp; presburger)
  with s show ?thesis by blast
qed

lemma process_video_success:
  assumes "process_video landing n vid grp = Success item"
  shows "\<exists>group_sorted. sort_by_frame_num grp = Some group_sorted
      \<and> hit_rows group_sorted \<noteq> []
      \<and> sequence_paths item
           = extract_sequence (map frame_path group_sorted)
               (int (list_index (map frame_path group_sorted) (frame_path (hit_row group_sorted))))
               n"
proof (cases "sort_by_frame_num grp")
  case None
  with assms show ?thesis
    by (simp add: process_video_def)
next
  case (Some group_sorted)
  show ?thesis
  proof (cases "hit_rows group_sorted = []")
    case True
    with assms Some show ?thesis
      by (simp add: process_video_def)
  next
    case False
    with assms Some have "sequence_paths item
           = extract_sequence (map frame_path group_sorted)
               (int (list_index (map frame_path group_sorted) (frame_path (hit_row group_sorted))))
               n"
      by (auto simp: process_video_def Let_def split: option.splits if_splits)
    with Some False show ?thesis by blast
  qed
qed

text \<open>
  Claim C4, as the code has it.  In a group with marked rows, the weight assignment takes
  the marked position \<open>c\<close> at place \<open>len div 2\<close> of the marked positions in the order of
  the group, and the weights are those of the distances to the frame number of \<open>c\<close>, with
  weight 1 at \<open>c\<close>.  A video that yields a sequence has its rows sorted by frame number;
  the sequence building takes the row \<open>c\<close> at place \<open>len div 2\<close> of the rows of weight 1
  in that order, and the sequence is the window around the first position of the path of
  \<open>c\<close>.  In both, with an odd number of candidates as many candidates come before \<open>c\<close> as
  after it, and with an even number one more comes before it than after it: \<open>c\<close> is the
  upper of the two middle candidates.
\<close>

theorem chosen_hit_is_upper_middle:
  "((\<exists>row \<in> set grp. is_hit_frame row = 1) \<longrightarrow>
      (\<exists>before c after.
          filter (\<lambda>i. is_hit_frame (grp ! i) = 1) [0..<length grp] = before @ c # after
        \<and> length before = length after + (if even (length (before @ c # after)) then 1 else 0)
        \<and> c < length grp
        \<and> (\<forall>i < length grp.
              weight (assign_linear_weights grp total_frames_window decay_rate ! i) =
                (if i = c then 1
                 else if \<bar>frame_num grp i - frame_num grp c\<bar> \<le> total_frames_window div 2
                   then max 0 (1 - real_of_int \<bar>frame_num grp i - frame_num grp c\<bar> * decay_rate)
                 else 0))))
   \<and> (\<forall>item. process_video landing_df_indexed n vid grp = Success item \<longrightarrow>
      (\<exists>group_sorted before c after.
          sort_by_frame_num grp = Some group_sorted
        \<and> filter (\<lambda>row. weight row = 1) group_sorted = before @ c # after
        \<and> length before = length after + (if even (length (before @ c # after)) then 1 else 0)
        \<and> sequence_paths item
            = extract_sequence (map frame_path group_sorted)
                (int (list_index (map frame_path group_sorted) (frame_path c))) n))"
proof (intro conjI impI allI)
  assume "\<exists>row \<in> set grp. is_hit_frame row = 1"
  then have ne: "hit_frames grp \<noteq> []"
    by (auto simp: hit_frames_empty)
  from middle_split[OF ne] obtain before after where
    s: "hit_frames grp = before @ middle_hit grp # after"
    and l: "length before = length after + (if even (length (hit_frames grp)) then 1 else 0)"
    unfolding middle_hit_def by blast
  have s': "filter (\<lambda>i. is_hit_frame (grp ! i) = 1) [0..<length grp]
      = before @ middle_hit grp # after"
    using s by (simp add: hit_frames_def)
  have l': "length before
      = length after + (if even (length (before @ middle_hit grp # after)) then 1 else 0)"
    using l unfolding s .
  have c: "middle_hit grp < length grp"
    by (rule middle_hit_less[OF ne])
  have w: "\<forall>i < length grp.
      weight (assign_linear_weights grp total_frames_window decay_rate ! i) =
        (if i = middle_hit grp then 1
         else if \<bar>frame_num grp i - frame_num grp (middle_hit grp)\<bar> \<le> total_frames_window div 2
           then max 0 (1 - real_of_int \<bar>frame_num grp i - frame_num grp (middle_hit grp)\<bar>
                             * decay_rate)
         else 0)"
    using weight_assign_nth[OF ne] by blast
  from s' l' c w show "\<exists>before c after.
          filter (\<lambda>i. is_hit_frame (grp ! i) = 1) [0..<length grp] = before @ c # after
        \<and> length before = length after + (if even (length (before @ c # after)) then 1 else 0)
        \<and> c < length grp
        \<and> (\<forall>i < length grp.
              weight (assign_linear_weights grp total_frames_window decay_rate ! i) =
                (if i = c then 1
                 else if \<bar>frame_num grp i - frame_num grp c\<bar> \<le> total_frames_window div 2
                   then max 0 (1 - real_of_int \<bar>frame_num grp i - frame_num grp c\<bar> * decay_rate)
                 else 0))"
    by blast
next
  fix item
  assume "process_video landing_df_indexed n vid grp = Success item"
  from process_video_success[OF this] obtain group_sorted where
    g: "sort_by_frame_num grp = Some group_sorted"
    and ne: "hit_rows group_sorted \<noteq> []"
    and q: "sequence_paths item
           = extract_sequence (map frame_path group_sorted)
               (int (list_index (map frame_path group_sorted) (frame_path (hit_row group_sorted))))
               n"
    by blast
  from middle_split[OF ne] obtain before after where
    s: "hit_rows group_sorted = before @ hit_row group_sorted # after"
    and l: "length before = length after + (if even (length (hit_rows group_sorted)) then 1 else 0)"
    unfolding hit_row_def by blast
  have s': "filter (\<lambda>row. weight row = 1) group_sorted = before @ hit_row group_sorted # after"
    using s by (simp add: hit_rows_def)
  have l': "length before
      = length after + (if even (length (before @ hit_row group_sorted # after)) then 1 else 0)"
    using l unfolding s .
  from g s' l' q show "\<exists>group_sorted before c after.
          sort_by_frame_num grp = Some group_sorted
        \<and> filter (\<lambda>row. weight row = 1) group_sorted = before @ c # after
        \<and> length before = length after + (if even (length (before @ c # after)) then 1 else 0)
        \<and> sequence_paths item
            = extract_sequence (map frame_path group_sorted)
                (int (list_index (map frame_path group_sorted) (frame_path c))) n"
    by blast
qed
text \<open>
  In \<^const>\<open>two_hit_video\<close> frames 3 and 4 are marked, at positions 0 and 1: one
  candidate comes before the chosen one and none after it.  The same holds of the two
  rows of weight 1 of \<^const>\<open>two_full_weights\<close>, whose sequence of three frames is centred
  on frame 4.
\<close>

lemma two_hit_video_hits:
  "hit_frames two_hit_video = [0, 1]" "middle_hit two_hit_video = 1"
  by code_simp+

lemma two_full_weights_sorted: "sort_by_frame_num two_full_weights = Some two_full_weights"
  by (simp add: sort_by_frame_num_def two_full_weights_def frame_num_int_def basename_def
        is_digit_def int_of_digits_def meta_row_def)

lemma two_full_weights_hit_rows: "filter (\<lambda>row. weight row = 1) two_full_weights = two_full_weights"
  by (simp add: two_full_weights_def)

lemma two_full_weights_sequence:
  "process_video ict03_landing 3 ''Frames/ICT03'' two_full_weights
     = Success \<lparr>sequence_paths = [''Frames/ICT03/frame_0003.jpg'',
                  ''Frames/ICT03/frame_0004.jpg'', ''Frames/ICT03/frame_0004.jpg''],
                target_coords = (1/2, 1/2), item_video_id = ''Frames/ICT03'',
                shot_id = ''ICT03''\<rparr>"
  unfolding process_video_def two_full_weights_sorted
  by (simp add: two_full_weights_def basename_def meta_row_def hit_rows_def hit_row_def
        list_index_def ict03_landing_def extract_sequence_def np_clip_def Let_def upto.simps)

theorem chosen_hit_is_upper_middle_witness:
  "(\<exists>before c after.
       filter (\<lambda>i. is_hit_frame (two_hit_video ! i) = 1) [0..<length two_hit_video]
         = before @ c # after
     \<and> length before = length after + 1
     \<and> weight (assign_linear_weights two_hit_video 9 (3/10) ! c) = 1)
   \<and> (\<exists>group_sorted before c after.
       sort_by_frame_num two_full_weights = Some group_sorted
     \<and> filter (\<lambda>row. weight row = 1) group_sorted = before @ c # after
     \<and> length before = length after + 1
     \<and> [''Frames/ICT03/frame_0003.jpg'', ''Frames/ICT03/frame_0004.jpg'',
         ''Frames/ICT03/frame_0004.jpg'']
         = extract_sequence (map frame_path group_sorted)
             (int (list_index (map frame_path group_sorted) (frame_path c))) 3)"
proof (rule conjI)
  have hit: "\<exists>row \<in> set two_hit_video. is_hit_frame row = 1"
    by (simp add: two_hit_video_def meta_row_def)
  have marked: "filter (\<lambda>i. is_hit_frame (two_hit_video ! i) = 1) [0..<length two_hit_video]
      = [0, 1]"
    using two_hit_video_hits(1) by (simp add: hit_frames_def)
  from chosen_hit_is_upper_middle [where grp = two_hit_video and total_frames_window = 9
      and decay_rate = "3/10", THEN conjunct1, THEN mp, OF hit]
  obtain before c after where
    s: "filter (\<lambda>i. is_hit_frame (two_hit_video ! i) = 1) [0..<length two_hit_video]
          = before @ c # after"
    and l: "length before = length after + (if even (length (before @ c # after)) then 1 else 0)"
    and c: "c < length two_hit_video"
    and w: "\<forall>i < length two_hit_video.
              weight (assign_linear_weights two_hit_video 9 (3/10) ! i) =
                (if i = c then 1
                 else if \<bar>frame_num two_hit_video i - frame_num two_hit_video c\<bar> \<le> 9 div 2
                   then max 0 (1 - real_of_int \<bar>frame_num two_hit_video i
                                                 - frame_num two_hit_video c\<bar> * (3/10))
                 else 0)"
    by blast
  have "length (before @ c # after) = 2"
    using s marked by (metis length_Cons list.size(3) numeral_2_eq_2)
  then have ev: "even (length (before @ c # after))"
    by (simp only: even_numeral)
  have l1: "length before = length after + 1"
    using l by (simp only: ev if_True)
  have "weight (assign_linear_weights two_hit_video 9 (3/10) ! c) = 1"
    using w c by simp
  with s l1 show "\<exists>before c after.
       filter (\<lambda>i. is_hit_frame (two_hit_video ! i) = 1) [0..<length two_hit_video]
         = before @ c # after
     \<and> length before = length after + 1
     \<and> weight (assign_linear_weights two_hit_video 9 (3/10) ! c) = 1"
    by blast
next
  from chosen_hit_is_upper_middle [where grp = two_full_weights
      and landing_df_indexed = ict03_landing and n = 3 and vid = "''Frames/ICT03''",
      THEN conjunct2, THEN spec, THEN mp, OF two_full_weights_sequence]
  obtain group_sorted before c after where
    g: "sort_by_frame_num two_full_weights = Some group_sorted"
    and s: "filter (\<lambda>row. weight row = 1) group_sorted = before @ c # after"
    and l: "length before = length after + (if even (length (before @ c # after)) then 1 else 0)"
    and q: "[''Frames/ICT03/frame_0003.jpg'', ''Frames/ICT03/frame_0004.jpg'',
             ''Frames/ICT03/frame_0004.jpg'']
         = extract_sequence (map frame_path group_sorted)
             (int (list_index (map frame_path group_sorted) (frame_path c))) 3"
    by auto
  have "group_sorted = two_full_weights"
    using g two_full_weights_sorted by simp
  then have "before @ c # after = two_full_weights"
    using s two_full_weights_hit_rows by simp
  then have "length (before @ c # after) = 2"
    by (simp only: two_full_weights_def) simp
  then have ev: "even (length (before @ c # after))"
    by (simp only: even_numeral)
  have l1: "length before = length after + 1"
    using l by (simp only: ev if_True)
  from g s l1 q show "\<exists>group_sorted before c after.
       sort_by_frame_num two_full_weights = Some group_sorted
     \<and> filter (\<lambda>row. weight row = 1) group_sorted = before @ c # after
     \<and> length before = length after + 1
     \<and> [''Frames/ICT03/frame_0003.jpg'', ''Frames/ICT03/frame_0004.jpg'',
         ''Frames/ICT03/frame_0004.jpg'']
         = extract_sequence (map frame_path group_sorted)
             (int (list_index (map frame_path group_sorted) (frame_path c))) 3"
    by blast
qed

text \<open>
  Claim C4 as stated fails: with the two marked frames 3 and 4 the lower middle element is
  frame 3 at position 0, and the code centres the weights on frame 4 at position 1, which
  gets weight 1 while frame 3 gets 0.7; the sequence of three frames is centred on frame 4
  as well.
\<close>

theorem chosen_hit_counterexample:
  "hit_frames two_hit_video = [0, 1]
   \<and> map weight (assign_linear_weights two_hit_video 9 (3/10)) = [7/10, 1, 7/10]
   \<and> process_video ict03_landing 3 ''Frames/ICT03'' two_full_weights
       = Success \<lparr>sequence_paths = [''Frames/ICT03/frame_0003.jpg'',
                    ''Frames/ICT03/frame_0004.jpg'', ''Frames/ICT03/frame_0004.jpg''],
                  target_coords = (1/2, 1/2), item_video_id = ''Frames/ICT03'',
                  shot_id = ''ICT03''\<rparr>"
proof -
  have n: "frame_num two_hit_video 0 = 3" "frame_num two_hit_video 1 = 4"
    "frame_num two_hit_video 2 = 5"
    by code_simp+
  have n': "frame_num two_hit_video (Suc 0) = 4"
    using n(2) by simp
  have l: "length two_hit_video = 3" "[0..<3] = [0, 1, 2]"
    by (simp_all add: two_hit_video_def upt_rec)
  have w: "map weight (assign_linear_weights two_hit_video 9 (3/10)) = [7/10, 1, 7/10]"
    by (simp add: assign_linear_weights_def two_hit_video_hits l n n' Let_def)
  from two_hit_video_hits(1) w two_full_weights_sequence show ?thesis
    by (intro conjI)
qed

end
